theory Spec2Isabelle
  imports Complex_Main
begin

section \<open>Data model (scripts/types.ts)\<close>

text \<open>
  The TypeScript \<^verbatim>\<open>number\<close> fields that hold scores and costs are modelled as
  \<^typ>\<open>real\<close>; iteration counters and issue counts, which the program only ever
  increments by one or takes from a list length, are \<^typ>\<open>int\<close>. Comparing and
  storing given numbers is exact. The sums of the quality analyzer and of the state
  manager are taken exactly. The convergence detector decides by comparing computed
  numbers with thresholds, so there the rounding of the program's arithmetic is part
  of the model.
  String unions are datatypes, interfaces are records, an optional field is an
  \<^typ>\<open>'a option\<close>.
\<close>

datatype issue_type = Security | Performance | Type_safety | Code_quality | Best_practice

datatype severity = Error | Warning | Info

datatype security_severity = Critical | High | Medium | Low

datatype impact = Impact_high | Impact_medium | Impact_low

datatype status = Success | Status_error

datatype ci_status = CI_success | CI_pending | CI_failure | CI_error

datatype phase = Waiting | Codex_review | Claude_response | Re_review | Complete | Failed

datatype convergence_status = Conv_improving | Conv_stagnant | Conv_complete

record Issue =
  issue_type :: issue_type
  severity :: severity
  issue_file :: string
  issue_line :: int
  message :: string

record SecurityIssue =
  sec_type :: string
  sec_severity :: security_severity
  sec_description :: string
  sec_file :: string
  sec_line :: int

record PerformanceIssue =
  perf_type :: string
  impact :: impact
  perf_description :: string
  perf_file :: string
  perf_line :: int

record CodexReviewResult =
  status :: status
  issuesFound :: "Issue list"
  overallQuality :: real
  securityIssues :: "SecurityIssue list"
  performanceIssues :: "PerformanceIssue list"
  review_cost :: real

record ClaudeResponseResult =
  claude_status :: status
  issuesAddressed :: int
  claude_cost :: real

record IterationRecord =
  iteration :: int
  codexReview :: "CodexReviewResult option"
  claudeResponse :: "ClaudeResponseResult option"
  rec_issuesFound :: int
  issuesFixed :: int
  qualityDelta :: real
  cost :: real
  timestamp :: string
  durationSeconds :: real

record IterationState =
  prNumber :: int
  repository :: string
  currentIteration :: int
  maxIterations :: int
  history :: "IterationRecord list"
  currentPhase :: phase
  qualityScore :: real
  convergenceStatus :: convergence_status
  totalCost :: real
  createdAt :: string
  updatedAt :: string

record HumanApprovalRules =
  qualityScoreBelow :: real
  securityIssuesFound :: bool
  iterationsExceeded :: bool
  costExceeded :: bool
  tests_failing :: bool

record MakerCheckerConfig =
  cfg_maxIterations :: int
  qualityThreshold :: real
  autoMergeThreshold :: real
  autoMergeEnabled :: bool
  maxCostPerPR :: real
  monthlyCostCap :: real
  requireHumanApprovalIf :: HumanApprovalRules

record QualityMetrics =
  overallScore :: real
  codeQuality :: real
  security :: real
  performance :: real
  typeSafety :: real
  bestPractices :: real

text \<open>
  The reason strings are built with template literals. How JavaScript prints a number
  (\<^verbatim>\<open>${n}\<close> and \<^verbatim>\<open>toFixed(2)\<close>) is taken as a parameter.
\<close>

record formatters =
  num_str :: "int \<Rightarrow> string"
  toFixed2 :: "real \<Rightarrow> string"

text \<open>The defaults of \<^verbatim>\<open>getDefaultConfig\<close> (scripts/orchestrator/index.ts).\<close>

definition getDefaultConfig :: MakerCheckerConfig where
  "getDefaultConfig =
     \<lparr> cfg_maxIterations = 5, qualityThreshold = 0.85, autoMergeThreshold = 0.9,
       autoMergeEnabled = False, maxCostPerPR = 5.0, monthlyCostCap = 100.0,
       requireHumanApprovalIf =
         \<lparr> qualityScoreBelow = 0.85, securityIssuesFound = True, iterationsExceeded = True,
           costExceeded = True, tests_failing = True \<rparr> \<rparr>"

text \<open>Sample values for the concrete instances below.\<close>

definition ex_review :: "real \<Rightarrow> Issue list \<Rightarrow> CodexReviewResult" where
  "ex_review q issues =
     \<lparr> status = Success, issuesFound = issues, overallQuality = q, securityIssues = [],
       performanceIssues = [], review_cost = 0.25 \<rparr>"

definition ex_record :: "int \<Rightarrow> CodexReviewResult option \<Rightarrow> int \<Rightarrow> real \<Rightarrow> IterationRecord" where
  "ex_record i review n c =
     \<lparr> iteration = i, codexReview = review, claudeResponse = None, rec_issuesFound = n,
       issuesFixed = 0, qualityDelta = 0, cost = c, timestamp = [], durationSeconds = 0 \<rparr>"

definition ex_fmt :: formatters where
  "ex_fmt = \<lparr> num_str = (\<lambda>n. if n = 5 then ''5'' else ''?''), toFixed2 = (\<lambda>x. ''0.00'') \<rparr>"

section \<open>QualityAnalyzer (scripts/orchestrator/quality-analyzer.ts)\<close>

text \<open>The three \<^verbatim>\<open>forEach\<close> loops of \<^verbatim>\<open>calculatePenalties\<close> add to one running total.\<close>

definition calculatePenalties :: "CodexReviewResult \<Rightarrow> real" where
  "calculatePenalties review =
     (let totalPenalty = 0;
          totalPenalty = fold (\<lambda>issue p.
              if severity issue = Error then p + 0.1
              else if severity issue = Warning then p + 0.05
              else p + 0.02) (issuesFound review) totalPenalty;
          totalPenalty = fold (\<lambda>issue p.
              if sec_severity issue = Critical then p + 0.2
              else if sec_severity issue = High then p + 0.15
              else p) (securityIssues review) totalPenalty;
          totalPenalty = fold (\<lambda>issue p.
              if impact issue = Impact_high then p + 0.1 else p)
              (performanceIssues review) totalPenalty
      in totalPenalty)"

definition calculateQualityScore :: "CodexReviewResult \<Rightarrow> real" where
  "calculateQualityScore review =
     (if status review = Status_error then 0
      else let score = overallQuality review;
               penalties = calculatePenalties review;
               score = max 0 (score - penalties)
           in min 1 (max 0 score))"

definition calculateCategoryScore :: "Issue list \<Rightarrow> real" where
  "calculateCategoryScore issues =
     (if length issues = 0 then 1.0
      else let penalty = fold (\<lambda>issue p.
                 if severity issue = Error then p + 0.15
                 else if severity issue = Warning then p + 0.08
                 else p + 0.03) issues 0
           in max 0 (1.0 - penalty))"

definition calculateMetrics :: "CodexReviewResult \<Rightarrow> QualityMetrics" where
  "calculateMetrics review =
     (let issues = issuesFound review;
          securityIssues = filter (\<lambda>i. issue_type i = Security) issues;
          performanceIssues = filter (\<lambda>i. issue_type i = Performance) issues;
          typeSafetyIssues = filter (\<lambda>i. issue_type i = Type_safety) issues;
          codeQualityIssues = filter (\<lambda>i. issue_type i = Code_quality) issues;
          bestPracticeIssues = filter (\<lambda>i. issue_type i = Best_practice) issues;
          security = calculateCategoryScore securityIssues;
          performance = calculateCategoryScore performanceIssues;
          typeSafety = calculateCategoryScore typeSafetyIssues;
          codeQuality = calculateCategoryScore codeQualityIssues;
          bestPractices = calculateCategoryScore bestPracticeIssues;
          overallScore = security * 0.25 + performance * 0.2 + typeSafety * 0.2
                         + codeQuality * 0.2 + bestPractices * 0.15
      in \<lparr> overallScore = overallScore, codeQuality = codeQuality, security = security,
           performance = performance, typeSafety = typeSafety,
           bestPractices = bestPractices \<rparr>)"

definition meetsThreshold :: "real \<Rightarrow> real \<Rightarrow> bool" where
  "meetsThreshold score threshold = (score \<ge> threshold)"

text \<open>Counting helpers used to state the penalty formulas.\<close>

definition count_sev :: "severity \<Rightarrow> Issue list \<Rightarrow> nat" where
  "count_sev s issues = length (filter (\<lambda>i. severity i = s) issues)"

definition count_sec :: "security_severity \<Rightarrow> SecurityIssue list \<Rightarrow> nat" where
  "count_sec s issues = length (filter (\<lambda>i. sec_severity i = s) issues)"

definition count_impact :: "impact \<Rightarrow> PerformanceIssue list \<Rightarrow> nat" where
  "count_impact s issues = length (filter (\<lambda>i. impact i = s) issues)"

definition of_type :: "issue_type \<Rightarrow> Issue list \<Rightarrow> Issue list" where
  "of_type t issues = filter (\<lambda>i. issue_type i = t) issues"

text \<open>
  The per-category score in the words of the specification: 1 minus 0.15 per error,
  0.08 per warning and 0.03 per info issue of the category, floored at 0.
\<close>

definition category_score_spec :: "issue_type \<Rightarrow> Issue list \<Rightarrow> real" where
  "category_score_spec t issues =
     max 0 (1 - (0.15 * real (count_sev Error (of_type t issues))
                 + 0.08 * real (count_sev Warning (of_type t issues))
                 + 0.03 * real (count_sev Info (of_type t issues))))"

lemma fold_issue_penalty:
  "fold (\<lambda>issue p. if severity issue = Error then p + a
                    else if severity issue = Warning then p + b
                    else p + c) issues (acc::real)
   = acc + a * real (count_sev Error issues) + b * real (count_sev Warning issues)
       + c * real (count_sev Info issues)"
proof (induction issues arbitrary: acc)
  case Nil
  show ?case by (simp add: count_sev_def)
next
  case (Cons i issues)
  show ?case
    by (cases "severity i") (simp_all add: Cons.IH count_sev_def algebra_simps)
qed

lemma fold_security_penalty:
  "fold (\<lambda>issue p. if sec_severity issue = Critical then p + a
                    else if sec_severity issue = High then p + b
                    else p) issues (acc::real)
   = acc + a * real (count_sec Critical issues) + b * real (count_sec High issues)"
proof (induction issues arbitrary: acc)
  case Nil
  show ?case by (simp add: count_sec_def)
next
  case (Cons i issues)
  show ?case
    by (cases "sec_severity i") (simp_all add: Cons.IH count_sec_def algebra_simps)
qed

lemma fold_performance_penalty:
  "fold (\<lambda>issue p. if impact issue = Impact_high then p + a else p) issues (acc::real)
   = acc + a * real (count_impact Impact_high issues)"
proof (induction issues arbitrary: acc)
  case Nil
  show ?case by (simp add: count_impact_def)
next
  case (Cons i issues)
  show ?case
    by (cases "impact i") (simp_all add: Cons.IH count_impact_def algebra_simps)
qed

lemma calculatePenalties_eq:
  "calculatePenalties review =
     0.1 * real (count_sev Error (issuesFound review))
   + 0.05 * real (count_sev Warning (issuesFound review))
   + 0.02 * real (count_sev Info (issuesFound review))
   + 0.2 * real (count_sec Critical (securityIssues review))
   + 0.15 * real (count_sec High (securityIssues review))
   + 0.1 * real (count_impact Impact_high (performanceIssues review))"
  unfolding calculatePenalties_def Let_def
  by (simp add: fold_issue_penalty fold_security_penalty fold_performance_penalty)

lemma calculateCategoryScore_eq:
  "calculateCategoryScore issues =
     max 0 (1 - (0.15 * real (count_sev Error issues) + 0.08 * real (count_sev Warning issues)
                 + 0.03 * real (count_sev Info issues)))"
proof (cases issues)
  case Nil
  then show ?thesis by (simp add: calculateCategoryScore_def count_sev_def)
next
  case (Cons i rest)
  have "calculateCategoryScore issues =
          max 0 (1 - fold (\<lambda>issue p. if severity issue = Error then p + 0.15
                    else if severity issue = Warning then p + 0.08
                    else p + 0.03) issues 0)"
    using Cons by (simp add: calculateCategoryScore_def)
  then show ?thesis by (simp add: fold_issue_penalty algebra_simps)
qed

text \<open>
  C4. \<^verbatim>\<open>calculateQualityScore\<close> is 0 for a review with status error; otherwise it is
  the reported overall quality minus 0.10 per error, 0.05 per warning, 0.02 per info
  issue, 0.20 per critical and 0.15 per high security issue and 0.10 per high-impact
  performance issue, clamped to the interval from 0 to 1; the result always lies in
  that interval.
\<close>

theorem calculateQualityScore_spec:
  "calculateQualityScore review =
     (if status review = Status_error then 0
      else min 1 (max 0 (overallQuality review
             - (0.10 * real (count_sev Error (issuesFound review))
                + 0.05 * real (count_sev Warning (issuesFound review))
                + 0.02 * real (count_sev Info (issuesFound review))
                + 0.20 * real (count_sec Critical (securityIssues review))
                + 0.15 * real (count_sec High (securityIssues review))
                + 0.10 * real (count_impact Impact_high (performanceIssues review))))))
   \<and> 0 \<le> calculateQualityScore review \<and> calculateQualityScore review \<le> 1"
  by (simp add: calculateQualityScore_def Let_def calculatePenalties_eq)

text \<open>
  C5. \<^verbatim>\<open>calculateMetrics\<close> gives each of the five categories the score 1 minus 0.15
  per error, 0.08 per warning and 0.03 per info issue of that category, floored at 0
  (so 1 for a category without issues), and the overall score is the weighted sum
  0.25 security + 0.20 performance + 0.20 type safety + 0.20 code quality
  + 0.15 best practices.
\<close>

theorem calculateMetrics_spec:
  "security (calculateMetrics review) = category_score_spec Security (issuesFound review)
   \<and> performance (calculateMetrics review) = category_score_spec Performance (issuesFound review)
   \<and> typeSafety (calculateMetrics review) = category_score_spec Type_safety (issuesFound review)
   \<and> codeQuality (calculateMetrics review) = category_score_spec Code_quality (issuesFound review)
   \<and> bestPractices (calculateMetrics review) = category_score_spec Best_practice (issuesFound review)
   \<and> overallScore (calculateMetrics review) =
         0.25 * security (calculateMetrics review)
       + 0.20 * performance (calculateMetrics review)
       + 0.20 * typeSafety (calculateMetrics review)
       + 0.20 * codeQuality (calculateMetrics review)
       + 0.15 * bestPractices (calculateMetrics review)
   \<and> category_score_spec t [] = 1"
  unfolding calculateMetrics_def Let_def category_score_spec_def
  by (simp add: calculateCategoryScore_eq of_type_def count_sev_def)

section \<open>StateManager (scripts/orchestrator/state-manager.ts)\<close>

text \<open>
  The state object is mutated in place and then written to disk by \<^verbatim>\<open>saveState\<close>;
  the model passes the state through and returns the mutated value. \<^verbatim>\<open>saveState\<close>
  stamps \<^verbatim>\<open>updatedAt\<close> before it writes the file; the file itself is outside the
  model, and the clock reading of an operation is the argument \<open>now\<close>.
\<close>

definition saveState :: "string \<Rightarrow> IterationState \<Rightarrow> IterationState" where
  "saveState now state = state\<lparr>updatedAt := now\<rparr>"

definition initializeState :: "string \<Rightarrow> int \<Rightarrow> string \<Rightarrow> MakerCheckerConfig \<Rightarrow> IterationState" where
  "initializeState now prNumber' repository' config =
     saveState now
       \<lparr> prNumber = prNumber', repository = repository', currentIteration = 0,
         maxIterations = cfg_maxIterations config, history = [], currentPhase = Waiting,
         qualityScore = 0, convergenceStatus = Conv_improving, totalCost = 0,
         createdAt = now, updatedAt = now \<rparr>"

definition updatePhase :: "string \<Rightarrow> IterationState \<Rightarrow> phase \<Rightarrow> IterationState" where
  "updatePhase now state phase = saveState now (state\<lparr>currentPhase := phase\<rparr>)"

definition startIteration :: "string \<Rightarrow> IterationState \<Rightarrow> IterationState" where
  "startIteration now state =
     saveState now (state\<lparr>currentIteration := currentIteration state + 1,
                          currentPhase := Codex_review\<rparr>)"

text \<open>
  \<^verbatim>\<open>x || d\<close> on a number yields \<open>d\<close> when \<open>x\<close> is missing or zero.
\<close>

definition quality_or :: "CodexReviewResult option \<Rightarrow> real \<Rightarrow> real" where
  "quality_or review d =
     (case review of
        None \<Rightarrow> d
      | Some r \<Rightarrow> if overallQuality r = 0 then d else overallQuality r)"

definition recordIteration :: "string \<Rightarrow> IterationState \<Rightarrow> IterationRecord \<Rightarrow> IterationState" where
  "recordIteration now state record =
     (let fullRecord = record\<lparr>timestamp := now, durationSeconds := 0\<rparr>;
          state = state\<lparr>history := history state @ [fullRecord]\<rparr>;
          state = state\<lparr>totalCost := totalCost state + cost record\<rparr>;
          state = state\<lparr>qualityScore := quality_or (codexReview record) (qualityScore state)\<rparr>
      in saveState now state)"

definition updateConvergence ::
  "string \<Rightarrow> IterationState \<Rightarrow> convergence_status \<Rightarrow> IterationState" where
  "updateConvergence now state st = saveState now (state\<lparr>convergenceStatus := st\<rparr>)"

definition complete :: "string \<Rightarrow> IterationState \<Rightarrow> bool \<Rightarrow> IterationState" where
  "complete now state success =
     saveState now (state\<lparr>currentPhase := (if success then Complete else Failed)\<rparr>)"

definition hasReachedMaxIterations :: "IterationState \<Rightarrow> bool" where
  "hasReachedMaxIterations state = (currentIteration state \<ge> maxIterations state)"

text \<open>
  The reachable states are those obtained from \<^const>\<open>initializeState\<close> by a sequence of
  the mutating operations, each with its clock reading.
\<close>

datatype sm_op =
    Op_startIteration
  | Op_recordIteration IterationRecord
  | Op_updatePhase phase
  | Op_updateConvergence convergence_status
  | Op_complete bool

fun apply_op :: "IterationState \<Rightarrow> string \<times> sm_op \<Rightarrow> IterationState" where
  "apply_op state (now, Op_startIteration) = startIteration now state"
| "apply_op state (now, Op_recordIteration r) = recordIteration now state r"
| "apply_op state (now, Op_updatePhase p) = updatePhase now state p"
| "apply_op state (now, Op_updateConvergence c) = updateConvergence now state c"
| "apply_op state (now, Op_complete b) = complete now state b"

definition run_ops :: "IterationState \<Rightarrow> (string \<times> sm_op) list \<Rightarrow> IterationState" where
  "run_ops state ops = foldl apply_op state ops"

fun op_cost_nonneg :: "sm_op \<Rightarrow> bool" where
  "op_cost_nonneg (Op_recordIteration r) = (0 \<le> cost r)"
| "op_cost_nonneg _ = True"

definition cost_sum :: "IterationState \<Rightarrow> real" where
  "cost_sum state = sum_list (map cost (history state))"

lemma apply_op_cost_sum:
  "totalCost state = cost_sum state \<Longrightarrow>
   totalCost (apply_op state (now, oper)) = cost_sum (apply_op state (now, oper))"
  by (cases oper)
     (simp_all add: cost_sum_def startIteration_def recordIteration_def updatePhase_def
        updateConvergence_def complete_def saveState_def Let_def)

lemma run_ops_cost_sum:
  "totalCost state = cost_sum state \<Longrightarrow> totalCost (run_ops state ops) = cost_sum (run_ops state ops)"
  unfolding run_ops_def
proof (induction ops arbitrary: state)
  case Nil
  then show ?case by simp
next
  case (Cons x ops)
  obtain now oper where x: "x = (now, oper)" by (cases x)
  show ?case using Cons.prems by (simp add: x Cons.IH apply_op_cost_sum)
qed

lemma initializeState_cost_sum:
  "totalCost (initializeState now n r cfg) = cost_sum (initializeState now n r cfg)"
  by (simp add: initializeState_def saveState_def cost_sum_def)

lemma apply_op_totalCost_mono:
  "op_cost_nonneg oper \<Longrightarrow> totalCost state \<le> totalCost (apply_op state (now, oper))"
  by (cases oper)
     (simp_all add: startIteration_def recordIteration_def updatePhase_def
        updateConvergence_def complete_def saveState_def Let_def)

text \<open>
  C8. In every state reached from \<^verbatim>\<open>initializeState\<close> by the StateManager operations
  the total cost is the sum of the costs of the history records, and an operation
  whose recorded cost is not negative never decreases the total cost.
\<close>

theorem totalCost_is_history_sum:
  assumes "state = run_ops (initializeState now0 n r cfg) ops"
  shows "totalCost state = sum_list (map cost (history state))
       \<and> (op_cost_nonneg oper \<longrightarrow> totalCost state \<le> totalCost (apply_op state (now, oper)))"
  using assms run_ops_cost_sum [OF initializeState_cost_sum, of now0 n r cfg ops]
        apply_op_totalCost_mono [where oper = oper and state = state and now = now]
  by (simp add: cost_sum_def)

theorem totalCost_is_history_sum_witness:
  "totalCost (run_ops (initializeState ''t0'' 7 ''repo'' getDefaultConfig)
       [(''t1'', Op_startIteration),
        (''t2'', Op_recordIteration (ex_record 1 (Some (ex_review 0.6 [])) 0 0.25))]) = 0.25
   \<and> op_cost_nonneg (Op_recordIteration (ex_record 2 None 0 0.5))
   \<and> totalCost (apply_op (run_ops (initializeState ''t0'' 7 ''repo'' getDefaultConfig)
       [(''t1'', Op_startIteration),
        (''t2'', Op_recordIteration (ex_record 1 (Some (ex_review 0.6 [])) 0 0.25))])
        (''t3'', Op_recordIteration (ex_record 2 None 0 0.5))) = 0.75"
  using totalCost_is_history_sum [OF refl, of "''t0''" 7 "''repo''" getDefaultConfig
       "[(''t1'', Op_startIteration),
        (''t2'', Op_recordIteration (ex_record 1 (Some (ex_review 0.6 [])) 0 0.25))]"
       "Op_recordIteration (ex_record 2 None 0 0.5)" "''t3''"]
  by (simp add: run_ops_def initializeState_def startIteration_def recordIteration_def
        saveState_def ex_record_def Let_def)

text \<open>
  C10. \<^verbatim>\<open>recordIteration\<close> replaces the quality score by the review's overall quality
  only when the record has a review whose overall quality is not zero; without a
  review, or with an overall quality of zero, the previous score stays.
\<close>

theorem recordIteration_qualityScore:
  "(codexReview record = None \<longrightarrow>
      qualityScore (recordIteration now state record) = qualityScore state)
   \<and> (\<forall>rv. codexReview record = Some rv \<and> overallQuality rv = 0 \<longrightarrow>
      qualityScore (recordIteration now state record) = qualityScore state)
   \<and> (\<forall>rv. codexReview record = Some rv \<and> overallQuality rv \<noteq> 0 \<longrightarrow>
      qualityScore (recordIteration now state record) = overallQuality rv)"
  by (simp add: recordIteration_def saveState_def Let_def quality_or_def)

theorem recordIteration_qualityScore_witness:
  "codexReview (ex_record 2 (Some (ex_review 0 [])) 0 0.5) = Some (ex_review 0 [])
   \<and> overallQuality (ex_review 0 []) = 0
   \<and> qualityScore (recordIteration ''t2''
        ((initializeState ''t0'' 7 ''repo'' getDefaultConfig)\<lparr>qualityScore := 0.7\<rparr>)
        (ex_record 2 (Some (ex_review 0 [])) 0 0.5)) = 0.7
   \<and> qualityScore (recordIteration ''t2''
        ((initializeState ''t0'' 7 ''repo'' getDefaultConfig)\<lparr>qualityScore := 0.7\<rparr>)
        (ex_record 2 (Some (ex_review 0.4 [])) 0 0.5)) = 0.4
   \<and> qualityScore (recordIteration ''t2''
        ((initializeState ''t0'' 7 ''repo'' getDefaultConfig)\<lparr>qualityScore := 0.7\<rparr>)
        (ex_record 2 None 0 0.5)) = 0.7"
  using recordIteration_qualityScore [of "ex_record 2 (Some (ex_review 0 [])) 0 0.5" "''t2''"
          "(initializeState ''t0'' 7 ''repo'' getDefaultConfig)\<lparr>qualityScore := 0.7\<rparr>"]
        recordIteration_qualityScore [of "ex_record 2 (Some (ex_review 0.4 [])) 0 0.5" "''t2''"
          "(initializeState ''t0'' 7 ''repo'' getDefaultConfig)\<lparr>qualityScore := 0.7\<rparr>"]
        recordIteration_qualityScore [of "ex_record 2 None 0 0.5" "''t2''"
          "(initializeState ''t0'' 7 ''repo'' getDefaultConfig)\<lparr>qualityScore := 0.7\<rparr>"]
  by (simp add: ex_record_def ex_review_def initializeState_def saveState_def)

section \<open>IterationLimiter (scripts/safety/convergence-detector.ts)\<close>

fun phase_str :: "phase \<Rightarrow> string" where
  "phase_str Waiting = ''waiting''"
| "phase_str Codex_review = ''codex_review''"
| "phase_str Claude_response = ''claude_response''"
| "phase_str Re_review = ''re_review''"
| "phase_str Complete = ''complete''"
| "phase_str Failed = ''failed''"

record start_result =
  allowed :: bool
  reason :: "string option"

definition canStartIteration ::
  "formatters \<Rightarrow> MakerCheckerConfig \<Rightarrow> IterationState \<Rightarrow> start_result" where
  "canStartIteration fmt config state =
     (if currentIteration state \<ge> maxIterations state then
        \<lparr> allowed = False,
          reason = Some (''Maximum iterations reached ('' @ num_str fmt (maxIterations state)
                         @ '')'') \<rparr>
      else if currentPhase state = Complete \<or> currentPhase state = Failed then
        \<lparr> allowed = False,
          reason = Some (''PR already in terminal state: '' @ phase_str (currentPhase state)) \<rparr>
      else if totalCost state \<ge> maxCostPerPR config then
        \<lparr> allowed = False,
          reason = Some (''Cost limit exceeded: $'' @ toFixed2 fmt (totalCost state)
                         @ '' / $'' @ toFixed2 fmt (maxCostPerPR config)) \<rparr>
      else \<lparr> allowed = True, reason = None \<rparr>)"

text \<open>Which of the three refusals applies to a state, in the order the code tests them.\<close>

datatype refusal = Max_iterations | Terminal_phase | Cost_cap | No_refusal

definition refusal_case :: "MakerCheckerConfig \<Rightarrow> IterationState \<Rightarrow> refusal" where
  "refusal_case config state =
     (if currentIteration state \<ge> maxIterations state then Max_iterations
      else if currentPhase state = Complete \<or> currentPhase state = Failed then Terminal_phase
      else if totalCost state \<ge> maxCostPerPR config then Cost_cap
      else No_refusal)"

text \<open>
  C3. \<^verbatim>\<open>canStartIteration\<close> refuses exactly when the iteration count has reached the
  maximum, or the phase is terminal, or the total cost has reached the cap; it allows
  otherwise (with no reason), and two refusals of different kinds never carry the same
  reason string.
\<close>

theorem canStartIteration_spec:
  "(\<not> allowed (canStartIteration fmt config state) \<longleftrightarrow>
      currentIteration state \<ge> maxIterations state
      \<or> currentPhase state = Complete \<or> currentPhase state = Failed
      \<or> totalCost state \<ge> maxCostPerPR config)
   \<and> (allowed (canStartIteration fmt config state) \<longleftrightarrow>
        reason (canStartIteration fmt config state) = None)
   \<and> (refusal_case config state \<noteq> refusal_case config state' \<longrightarrow>
        reason (canStartIteration fmt config state)
        \<noteq> reason (canStartIteration fmt config state'))"
  by (simp add: canStartIteration_def refusal_case_def)

theorem canStartIteration_spec_witness:
  "refusal_case getDefaultConfig
      ((initializeState ''t0'' 7 ''repo'' getDefaultConfig)\<lparr>currentIteration := 5\<rparr>)
    \<noteq> refusal_case getDefaultConfig
      ((initializeState ''t0'' 7 ''repo'' getDefaultConfig)\<lparr>totalCost := 6\<rparr>)
   \<and> reason (canStartIteration ex_fmt getDefaultConfig
      ((initializeState ''t0'' 7 ''repo'' getDefaultConfig)\<lparr>currentIteration := 5\<rparr>))
    \<noteq> reason (canStartIteration ex_fmt getDefaultConfig
      ((initializeState ''t0'' 7 ''repo'' getDefaultConfig)\<lparr>totalCost := 6\<rparr>))
   \<and> reason (canStartIteration ex_fmt getDefaultConfig
      ((initializeState ''t0'' 7 ''repo'' getDefaultConfig)\<lparr>currentIteration := 5\<rparr>))
      = Some ''Maximum iterations reached (5)''"
  using canStartIteration_spec [of ex_fmt getDefaultConfig
      "(initializeState ''t0'' 7 ''repo'' getDefaultConfig)\<lparr>currentIteration := 5\<rparr>"
      "(initializeState ''t0'' 7 ''repo'' getDefaultConfig)\<lparr>totalCost := 6\<rparr>"]
  by (simp add: refusal_case_def canStartIteration_def initializeState_def saveState_def
        getDefaultConfig_def ex_fmt_def)

section \<open>MergeDecider (scripts/orchestrator/merge-decider.ts)\<close>

text \<open>
  The decision's message is kept as its parts: the list of reasons pushed while the
  gates are checked, or the data of the approval message.
\<close>

datatype block_reason =
    Quality_below real real
  | Critical_security_issues nat
  | CI_not_success ci_status
  | Max_iterations_without_quality int
  | Cost_exceeded_limit real real
  | No_improvement

datatype decision_reason =
    Approval_message real int int real bool
  | Blocking_message "block_reason list"

record MergeDecision =
  md_shouldMerge :: bool
  md_reason :: decision_reason
  md_requiresHumanApproval :: bool
  md_blockingIssues :: "Issue list"
  md_qualityScore :: real
  md_iterationsUsed :: int
  md_totalCost :: real

text \<open>
  A rule of \<^verbatim>\<open>requireHumanApprovalIf\<close> that is a number counts as set when it is not
  zero; a missing \<^verbatim>\<open>tests_failing\<close> is \<^const>\<open>False\<close>.
\<close>

definition requiresHumanApproval ::
  "MakerCheckerConfig \<Rightarrow> IterationState \<Rightarrow> CodexReviewResult \<Rightarrow> bool \<Rightarrow> ci_status \<Rightarrow> bool" where
  "requiresHumanApproval config state review qualityMet ciStatus =
     (let rules = requireHumanApprovalIf config in
      if qualityScoreBelow rules \<noteq> 0 \<and> qualityScore state < qualityScoreBelow rules then True
      else if securityIssuesFound rules \<and> length (securityIssues review) > 0 then True
      else if iterationsExceeded rules \<and> currentIteration state \<ge> maxIterations state then True
      else if costExceeded rules \<and> totalCost state \<ge> maxCostPerPR config then True
      else if tests_failing rules \<and> ciStatus \<noteq> CI_success then True
      else False)"

definition shouldMerge ::
  "MakerCheckerConfig \<Rightarrow> IterationState \<Rightarrow> CodexReviewResult \<Rightarrow> ci_status \<Rightarrow> MergeDecision" where
  "shouldMerge config state latestReview ciStatus =
     (let blockingIssues = [];
          reasons = [];
          qualityMet = (qualityScore state \<ge> qualityThreshold config);
          reasons = (if \<not> qualityMet
                     then reasons @ [Quality_below (qualityScore state) (qualityThreshold config)]
                     else reasons);
          securityIssues = filter (\<lambda>i. issue_type i = Security \<and> severity i = Error)
                             (issuesFound latestReview);
          blockingIssues = (if length securityIssues > 0 then blockingIssues @ securityIssues
                            else blockingIssues);
          reasons = (if length securityIssues > 0
                     then reasons @ [Critical_security_issues (length securityIssues)]
                     else reasons);
          reasons = (if ciStatus \<noteq> CI_success then reasons @ [CI_not_success ciStatus]
                     else reasons);
          iterationsExceeded = (currentIteration state \<ge> maxIterations state);
          reasons = (if iterationsExceeded \<and> \<not> qualityMet
                     then reasons @ [Max_iterations_without_quality (maxIterations state)]
                     else reasons);
          costExceeded = (totalCost state \<ge> maxCostPerPR config);
          reasons = (if costExceeded
                     then reasons @ [Cost_exceeded_limit (totalCost state) (maxCostPerPR config)]
                     else reasons);
          isStagnant = (convergenceStatus state = Conv_stagnant);
          reasons = (if isStagnant \<and> \<not> qualityMet then reasons @ [No_improvement]
                     else reasons);
          canAutoMerge = (autoMergeEnabled config \<and> qualityMet
                          \<and> qualityScore state \<ge> autoMergeThreshold config
                          \<and> length blockingIssues = 0 \<and> ciStatus = CI_success
                          \<and> \<not> costExceeded);
          requiresHumanApproval' =
            requiresHumanApproval config state latestReview qualityMet ciStatus;
          shouldMerge' = (canAutoMerge
                          \<or> (qualityMet \<and> length blockingIssues = 0 \<and> ciStatus = CI_success
                              \<and> \<not> requiresHumanApproval'))
      in \<lparr> md_shouldMerge = shouldMerge',
           md_reason = (if shouldMerge'
                        then Approval_message (qualityScore state) (currentIteration state)
                               (maxIterations state) (totalCost state) canAutoMerge
                        else Blocking_message reasons),
           md_requiresHumanApproval = (requiresHumanApproval' \<or> \<not> canAutoMerge),
           md_blockingIssues = blockingIssues,
           md_qualityScore = qualityScore state,
           md_iterationsUsed = currentIteration state,
           md_totalCost = totalCost state \<rparr>)"

text \<open>Sample inputs: a state at its first iteration with a given score and cost.\<close>

definition ex_state :: "real \<Rightarrow> real \<Rightarrow> IterationState" where
  "ex_state q c =
     \<lparr> prNumber = 7, repository = ''repo'', currentIteration = 1, maxIterations = 5,
       history = [], currentPhase = Codex_review, qualityScore = q,
       convergenceStatus = Conv_improving, totalCost = c, createdAt = ''t0'',
       updatedAt = ''t1'' \<rparr>"

definition ex_issue :: "issue_type \<Rightarrow> severity \<Rightarrow> Issue" where
  "ex_issue t s =
     \<lparr> issue_type = t, severity = s, issue_file = ''src/a.ts'', issue_line = 3,
       message = ''m'' \<rparr>"

definition ex_security_issue :: "security_severity \<Rightarrow> SecurityIssue" where
  "ex_security_issue s =
     \<lparr> sec_type = ''injection'', sec_severity = s, sec_description = ''d'',
       sec_file = ''src/a.ts'', sec_line = 3 \<rparr>"

lemma shouldMerge_blockingIssues:
  "md_blockingIssues (shouldMerge config state review ci) =
     filter (\<lambda>i. issue_type i = Security \<and> severity i = Error) (issuesFound review)"
  by (simp add: shouldMerge_def Let_def)

lemma shouldMerge_needs_no_blocking:
  "md_shouldMerge (shouldMerge config state review ci) \<Longrightarrow>
     filter (\<lambda>i. issue_type i = Security \<and> severity i = Error) (issuesFound review) = []"
  by (auto simp add: shouldMerge_def Let_def split: if_splits)

lemma shouldMerge_security_rule:
  assumes "securityIssuesFound (requireHumanApprovalIf config)"
    and "securityIssues review \<noteq> []"
  shows "md_requiresHumanApproval (shouldMerge config state review ci)"
    and "md_shouldMerge (shouldMerge config state review ci) \<Longrightarrow>
           autoMergeEnabled config \<and> autoMergeThreshold config \<le> qualityScore state"
proof -
  have rha: "requiresHumanApproval config state review q ci" for q
    using assms by (simp add: requiresHumanApproval_def Let_def)
  show "md_requiresHumanApproval (shouldMerge config state review ci)"
    by (simp add: shouldMerge_def Let_def rha)
  show "autoMergeEnabled config \<and> autoMergeThreshold config \<le> qualityScore state"
    if "md_shouldMerge (shouldMerge config state review ci)"
    using that by (simp add: shouldMerge_def Let_def rha)
qed

text \<open>
  C1, as stated, fails. With the default configuration, a score of 0.95, no cost and
  a successful CI run, a review whose only issue is an error-severity performance
  issue is approved. A review that lists one critical entry in \<^verbatim>\<open>securityIssues\<close>
  is approved, with an empty \<^verbatim>\<open>blockingIssues\<close>, when auto-merge is switched on, and
  also when the \<^verbatim>\<open>securityIssuesFound\<close> approval rule is switched off.
\<close>

theorem shouldMerge_with_error_issue_counterexample:
  "md_shouldMerge (shouldMerge getDefaultConfig (ex_state 0.95 0)
       (ex_review 0.95 [ex_issue Performance Error]) CI_success)
   \<and> count_sev Error (issuesFound (ex_review 0.95 [ex_issue Performance Error])) = 1
   \<and> count_sec Critical
        (securityIssues ((ex_review 0.95 [])\<lparr>securityIssues := [ex_security_issue Critical]\<rparr>))
       = 1
   \<and> md_shouldMerge (shouldMerge (getDefaultConfig\<lparr>autoMergeEnabled := True\<rparr>)
       (ex_state 0.95 0)
       ((ex_review 0.95 [])\<lparr>securityIssues := [ex_security_issue Critical]\<rparr>) CI_success)
   \<and> md_blockingIssues (shouldMerge (getDefaultConfig\<lparr>autoMergeEnabled := True\<rparr>)
       (ex_state 0.95 0)
       ((ex_review 0.95 [])\<lparr>securityIssues := [ex_security_issue Critical]\<rparr>) CI_success) = []
   \<and> md_shouldMerge (shouldMerge
       (getDefaultConfig\<lparr>requireHumanApprovalIf :=
           (requireHumanApprovalIf getDefaultConfig)\<lparr>securityIssuesFound := False\<rparr>\<rparr>)
       (ex_state 0.95 0)
       ((ex_review 0.95 [])\<lparr>securityIssues := [ex_security_issue Critical]\<rparr>) CI_success)"
  by (simp add: shouldMerge_def requiresHumanApproval_def Let_def getDefaultConfig_def
        ex_state_def ex_review_def ex_issue_def ex_security_issue_def count_sev_def
        count_sec_def)

text \<open>
  C1, amended. Whatever the score, the configuration and the CI status, a review whose
  issue list holds a security issue of severity error is never approved, and that
  issue is in the decision's \<^verbatim>\<open>blockingIssues\<close>, which are exactly the security
  issues of severity error of the review. While the review's \<^verbatim>\<open>securityIssues\<close> list
  is not empty (so in particular while it holds a critical or high entry) and the
  \<^verbatim>\<open>securityIssuesFound\<close> approval rule is on, as it is by default, the decision
  requires human approval, and it approves the merge only on the auto-merge path
  (auto-merge enabled and the score at or above the auto-merge threshold); with
  auto-merge off, as it is by default, it does not approve.
\<close>

theorem shouldMerge_blocks_security_errors:
  "(i \<in> set (issuesFound review) \<and> issue_type i = Security \<and> severity i = Error \<longrightarrow>
      \<not> md_shouldMerge (shouldMerge config state review ci)
      \<and> i \<in> set (md_blockingIssues (shouldMerge config state review ci)))
   \<and> md_blockingIssues (shouldMerge config state review ci) =
        filter (\<lambda>i. issue_type i = Security \<and> severity i = Error) (issuesFound review)
   \<and> (securityIssuesFound (requireHumanApprovalIf config) \<and> securityIssues review \<noteq> [] \<longrightarrow>
        md_requiresHumanApproval (shouldMerge config state review ci)
        \<and> (md_shouldMerge (shouldMerge config state review ci) \<longrightarrow>
             autoMergeEnabled config \<and> autoMergeThreshold config \<le> qualityScore state)
        \<and> (\<not> autoMergeEnabled config \<longrightarrow>
             \<not> md_shouldMerge (shouldMerge config state review ci)))"
proof -
  let ?sec = "filter (\<lambda>i. issue_type i = Security \<and> severity i = Error) (issuesFound review)"
  have first: "\<not> md_shouldMerge (shouldMerge config state review ci)
               \<and> i \<in> set (md_blockingIssues (shouldMerge config state review ci))"
    if "i \<in> set (issuesFound review)" "issue_type i = Security" "severity i = Error"
  proof -
    have mem: "i \<in> set ?sec" using that by simp
    have "?sec \<noteq> []"
    proof
      assume "?sec = []"
      with mem show False by simp
    qed
    then have "\<not> md_shouldMerge (shouldMerge config state review ci)"
      using shouldMerge_needs_no_blocking [of config state review ci] by blast
    then show ?thesis using mem by (simp add: shouldMerge_blockingIssues)
  qed
  show ?thesis
    using first shouldMerge_blockingIssues [of config state review ci]
          shouldMerge_security_rule [of config review state ci]
    by blast
qed

theorem shouldMerge_blocks_security_errors_witness:
  "ex_issue Security Error \<in> set (issuesFound (ex_review 0.95 [ex_issue Security Error]))
   \<and> \<not> md_shouldMerge (shouldMerge (getDefaultConfig\<lparr>autoMergeEnabled := True\<rparr>)
        (ex_state 0.95 0) (ex_review 0.95 [ex_issue Security Error]) CI_success)
   \<and> md_blockingIssues (shouldMerge (getDefaultConfig\<lparr>autoMergeEnabled := True\<rparr>)
        (ex_state 0.95 0) (ex_review 0.95 [ex_issue Security Error]) CI_success)
      = [ex_issue Security Error]
   \<and> securityIssuesFound (requireHumanApprovalIf getDefaultConfig)
   \<and> securityIssues ((ex_review 0.95 [])\<lparr>securityIssues := [ex_security_issue Critical]\<rparr>)
        \<noteq> []
   \<and> \<not> autoMergeEnabled getDefaultConfig
   \<and> \<not> md_shouldMerge (shouldMerge getDefaultConfig (ex_state 0.95 0)
        ((ex_review 0.95 [])\<lparr>securityIssues := [ex_security_issue Critical]\<rparr>) CI_success)
   \<and> md_requiresHumanApproval (shouldMerge getDefaultConfig (ex_state 0.95 0)
        ((ex_review 0.95 [])\<lparr>securityIssues := [ex_security_issue Critical]\<rparr>) CI_success)"
  using shouldMerge_blocks_security_errors [of "ex_issue Security Error"
          "ex_review 0.95 [ex_issue Security Error]" "getDefaultConfig\<lparr>autoMergeEnabled := True\<rparr>"
          "ex_state 0.95 0" CI_success]
        shouldMerge_blocks_security_errors [of "ex_issue Security Error"
          "(ex_review 0.95 [])\<lparr>securityIssues := [ex_security_issue Critical]\<rparr>"
          getDefaultConfig "ex_state 0.95 0" CI_success]
  by (simp add: ex_review_def ex_issue_def getDefaultConfig_def)

text \<open>
  C2, as stated, fails: with the \<^verbatim>\<open>costExceeded\<close> approval rule switched off, a state
  whose cost of 6 is above the cap of 5 is approved.
\<close>

theorem shouldMerge_over_cost_cap_counterexample:
  "md_shouldMerge (shouldMerge
       (getDefaultConfig\<lparr>requireHumanApprovalIf :=
           (requireHumanApprovalIf getDefaultConfig)\<lparr>costExceeded := False\<rparr>\<rparr>)
       (ex_state 0.95 6) (ex_review 0.95 []) CI_success)
   \<and> \<not> totalCost (ex_state 0.95 6)
        < maxCostPerPR (getDefaultConfig\<lparr>requireHumanApprovalIf :=
           (requireHumanApprovalIf getDefaultConfig)\<lparr>costExceeded := False\<rparr>\<rparr>)"
  by (simp add: shouldMerge_def requiresHumanApproval_def Let_def getDefaultConfig_def
        ex_state_def ex_review_def)

text \<open>
  C2, amended. When the configuration's \<^verbatim>\<open>costExceeded\<close> approval rule is on, a
  decision approves the merge only if the cumulative cost is strictly below the cap;
  and under any configuration, a decision that approves without requiring human
  approval is returned only if the cost is strictly below the cap.
\<close>

theorem shouldMerge_cost_gate:
  "(costExceeded (requireHumanApprovalIf config)
      \<and> md_shouldMerge (shouldMerge config state review ci)
      \<longrightarrow> totalCost state < maxCostPerPR config)
   \<and> (md_shouldMerge (shouldMerge config state review ci)
      \<and> \<not> md_requiresHumanApproval (shouldMerge config state review ci)
      \<longrightarrow> totalCost state < maxCostPerPR config)"
  by (auto simp add: shouldMerge_def requiresHumanApproval_def Let_def split: if_splits)

theorem shouldMerge_cost_gate_witness:
  "costExceeded (requireHumanApprovalIf getDefaultConfig)
   \<and> md_shouldMerge (shouldMerge getDefaultConfig (ex_state 0.95 1) (ex_review 0.95 []) CI_success)
   \<and> totalCost (ex_state 0.95 1) < maxCostPerPR getDefaultConfig
   \<and> \<not> md_shouldMerge (shouldMerge getDefaultConfig (ex_state 0.95 6) (ex_review 0.95 [])
          CI_success)"
  using shouldMerge_cost_gate [of getDefaultConfig "ex_state 0.95 1" "ex_review 0.95 []" CI_success]
  by (simp add: shouldMerge_def requiresHumanApproval_def Let_def getDefaultConfig_def
        ex_state_def ex_review_def)

section \<open>ConvergenceDetector (scripts/safety/convergence-detector.ts)\<close>

text \<open>
  The detector decides by comparing computed numbers with thresholds, so the
  arithmetic of the program is part of the model. A JavaScript number is a binary64
  value: the result of an addition, subtraction or division is the exact result
  rounded to the nearest such value, and a decimal literal stands for the value nearest
  to it. This rounding is the parameter \<open>rnd\<close>; \<^verbatim>\<open>Math.pow(x, 2)\<close>, whose precision the
  language leaves to the implementation, is the parameter \<open>pow2\<close>. Comparison,
  negation, \<^verbatim>\<open>Math.abs\<close>, \<^verbatim>\<open>Math.max\<close> and \<^verbatim>\<open>Math.ceil\<close> are exact, and so are the
  literals 0 and 1. Infinities and NaN are outside the model.
\<close>

record float_ops =
  rnd :: "real \<Rightarrow> real"
  pow2 :: "real \<Rightarrow> real"

text \<open>
  A bound that rounding to the nearest binary64 value satisfies with room to spare, for
  every number whose rounding is finite: the error is at most a millionth of the
  number plus a millionth. Beyond the range of binary64 the program has an infinity,
  which the model has not; a rounding that is extended there within the bound
  describes every run of the program in which no infinity arises.
\<close>

definition rounding_ok :: "float_ops \<Rightarrow> bool" where
  "rounding_ok fp \<longleftrightarrow> (\<forall>x. \<bar>rnd fp x - x\<bar> \<le> \<bar>x\<bar> / 10 ^ 6 + 1 / 10 ^ 6)"

text \<open>
  The operations without rounding. They agree with the binary64 operations wherever
  every operand and result is a binary64 value, as for the multiples of 1/128 in the
  sample histories below, whose computed values also stay well away from the
  thresholds they are compared with.
\<close>

definition exact_ops :: float_ops where
  "exact_ops = \<lparr> rnd = (\<lambda>x. x), pow2 = (\<lambda>x. x ^ 2) \<rparr>"

datatype trend = Improving | Stagnant | Regressing

record detection =
  det_status :: trend
  det_confidence :: real
  det_reason :: string

record quality_trend =
  q_improving :: bool
  q_stagnant :: bool
  q_regressing :: bool

record issue_trend =
  i_decreasing :: bool
  i_stagnant :: bool
  i_increasing :: bool

record prediction =
  willReach :: bool
  estimatedIterations :: int
  pred_confidence :: real

text \<open>
  \<^verbatim>\<open>xs.slice(-t)\<close>: a negative start counts from the end and stops at the front of
  the array, a start that is not negative (\<open>t \<le> 0\<close>) counts from the front.
\<close>

definition slice_neg :: "int \<Rightarrow> 'a list \<Rightarrow> 'a list" where
  "slice_neg t xs =
     (let len = int (length xs);
          relativeStart = - t;
          k = (if relativeStart < 0 then max (len + relativeStart) 0 else min relativeStart len)
      in drop (nat k) xs)"

text \<open>
  The counting loops of \<^verbatim>\<open>analyzeQualityTrend\<close> and \<^verbatim>\<open>analyzeIssueTrend\<close> visit the
  adjacent pairs from left to right; the triple holds the three counters.
\<close>

fun count_quality_steps ::
  "float_ops \<Rightarrow> real list \<Rightarrow> nat \<times> nat \<times> nat \<Rightarrow> nat \<times> nat \<times> nat" where
  "count_quality_steps fp (p # c # rest) (improvingCount, regressingCount, sameCount) =
     (let delta = rnd fp (c - p) in
      if delta > rnd fp 0.02 then
        count_quality_steps fp (c # rest) (improvingCount + 1, regressingCount, sameCount)
      else if delta < - rnd fp 0.02 then
        count_quality_steps fp (c # rest) (improvingCount, regressingCount + 1, sameCount)
      else count_quality_steps fp (c # rest) (improvingCount, regressingCount, sameCount + 1))"
| "count_quality_steps fp _ counts = counts"

definition analyzeQualityTrend :: "float_ops \<Rightarrow> IterationRecord list \<Rightarrow> quality_trend" where
  "analyzeQualityTrend fp history' =
     (let qualities = map (\<lambda>h. quality_or (codexReview h) 0) history' in
      case count_quality_steps fp qualities (0, 0, 0) of
        (improvingCount, regressingCount, sameCount) \<Rightarrow>
          \<lparr> q_improving = (improvingCount > regressingCount \<and> improvingCount > 0),
            q_stagnant = (int sameCount \<ge> int (length qualities) - 1),
            q_regressing = (regressingCount > improvingCount) \<rparr>)"

fun count_issue_steps :: "int list \<Rightarrow> nat \<times> nat \<times> nat \<Rightarrow> nat \<times> nat \<times> nat" where
  "count_issue_steps (p # c # rest) (decreasingCount, increasingCount, sameCount) =
     (if c < p then
        count_issue_steps (c # rest) (decreasingCount + 1, increasingCount, sameCount)
      else if c > p then
        count_issue_steps (c # rest) (decreasingCount, increasingCount + 1, sameCount)
      else count_issue_steps (c # rest) (decreasingCount, increasingCount, sameCount + 1))"
| "count_issue_steps _ counts = counts"

definition analyzeIssueTrend :: "IterationRecord list \<Rightarrow> issue_trend" where
  "analyzeIssueTrend history' =
     (let issueCounts = map rec_issuesFound history' in
      case count_issue_steps issueCounts (0, 0, 0) of
        (decreasingCount, increasingCount, sameCount) \<Rightarrow>
          \<lparr> i_decreasing = (decreasingCount > increasingCount),
            i_stagnant = (int sameCount \<ge> int (length issueCounts) - 1),
            i_increasing = (increasingCount > decreasingCount) \<rparr>)"

definition calculateOverallTrend :: "float_ops \<Rightarrow> IterationRecord list \<Rightarrow> real" where
  "calculateOverallTrend fp history' =
     (if length history' < 2 then 0
      else let firstQuality = quality_or (codexReview (hd history')) 0;
               lastQuality = quality_or (codexReview (last history')) 0
           in rnd fp (rnd fp (lastQuality - firstQuality) / real (length history')))"

definition calculateVariance :: "float_ops \<Rightarrow> real list \<Rightarrow> real" where
  "calculateVariance fp values =
     (if length values = 0 then 0
      else let mean = rnd fp (foldl (\<lambda>sum val. rnd fp (sum + val)) 0 values
                              / real (length values));
               squaredDiffs = map (\<lambda>val. pow2 fp (rnd fp (val - mean))) values;
               variance = rnd fp (foldl (\<lambda>sum val. rnd fp (sum + val)) 0 squaredDiffs
                                  / real (length values))
           in variance)"

text \<open>The detector's only field is \<^verbatim>\<open>stagnationThreshold\<close> (3 unless given).\<close>

definition detectConvergence :: "float_ops \<Rightarrow> int \<Rightarrow> IterationState \<Rightarrow> detection" where
  "detectConvergence fp stagnationThreshold state =
     (if length (history state) < 2 then
        \<lparr> det_status = Improving, det_confidence = rnd fp 0.5,
          det_reason = ''Not enough iterations to determine trend'' \<rparr>
      else
        let recentHistory = slice_neg stagnationThreshold (history state);
            qualityTrend = analyzeQualityTrend fp recentHistory;
            issueTrend = analyzeIssueTrend recentHistory
        in if q_improving qualityTrend \<and> i_decreasing issueTrend then
             \<lparr> det_status = Improving, det_confidence = rnd fp 0.9,
               det_reason = ''Quality increasing and issues decreasing'' \<rparr>
           else if q_stagnant qualityTrend \<and> i_stagnant issueTrend then
             \<lparr> det_status = Stagnant, det_confidence = rnd fp 0.85,
               det_reason =
                 ''No improvement in quality or issue count for multiple iterations'' \<rparr>
           else if q_regressing qualityTrend \<or> i_increasing issueTrend then
             \<lparr> det_status = Regressing, det_confidence = rnd fp 0.8,
               det_reason = ''Quality decreasing or new issues being introduced'' \<rparr>
           else
             let overallTrend = calculateOverallTrend fp recentHistory
             in if overallTrend > rnd fp 0.05 then
                  \<lparr> det_status = Improving, det_confidence = rnd fp 0.6,
                    det_reason = ''Slow but steady improvement'' \<rparr>
                else if \<bar>overallTrend\<bar> \<le> rnd fp 0.05 then
                  \<lparr> det_status = Stagnant, det_confidence = rnd fp 0.7,
                    det_reason = ''Minimal change in recent iterations'' \<rparr>
                else
                  \<lparr> det_status = Regressing, det_confidence = rnd fp 0.7,
                    det_reason = ''Overall negative trend'' \<rparr>)"

text \<open>
  The loop of \<^verbatim>\<open>predictConvergence\<close> runs \<open>i\<close> from 1 below the length of the history
  and pushes the difference of the qualities at \<open>i\<close> and \<open>i - 1\<close>.
\<close>

definition improvements_of :: "float_ops \<Rightarrow> IterationRecord list \<Rightarrow> real list" where
  "improvements_of fp history' =
     map (\<lambda>i. let prevQuality = quality_or (codexReview (history' ! (i - 1))) 0;
                   currQuality = quality_or (codexReview (history' ! i)) 0
               in rnd fp (currQuality - prevQuality))
         [1..<length history']"

definition predictConvergence :: "float_ops \<Rightarrow> IterationState \<Rightarrow> real \<Rightarrow> prediction" where
  "predictConvergence fp state targetQuality =
     (if qualityScore state \<ge> targetQuality then
        \<lparr> willReach = True, estimatedIterations = 0, pred_confidence = 1 \<rparr>
      else if length (history state) < 2 then
        \<lparr> willReach = True,
          estimatedIterations = maxIterations state - currentIteration state,
          pred_confidence = rnd fp 0.3 \<rparr>
      else
        let improvements = improvements_of fp (history state);
            avgImprovement = rnd fp (foldl (\<lambda>sum val. rnd fp (sum + val)) 0 improvements
                                     / real (length improvements))
        in if avgImprovement \<le> 0 then
             \<lparr> willReach = False, estimatedIterations = - 1, pred_confidence = rnd fp 0.9 \<rparr>
           else
             let neededImprovement = rnd fp (targetQuality - qualityScore state);
                 estimatedIterations' = \<lceil>rnd fp (neededImprovement / avgImprovement)\<rceil>;
                 iterationsRemaining = maxIterations state - currentIteration state;
                 willReach' = (estimatedIterations' \<le> iterationsRemaining);
                 improvementVariance = calculateVariance fp improvements;
                 confidence = max (rnd fp 0.4) (rnd fp (1 - improvementVariance))
             in \<lparr> willReach = willReach', estimatedIterations = estimatedIterations',
                  pred_confidence = confidence \<rparr>)"

text \<open>
  The notions in which the properties are stated, written without reference to the
  functions above. The quality of a record is the overall quality of its review, or 0
  without one. The adjacent pairs of a sequence are (earlier, later). The computed
  deltas of a quality sequence are the rounded differences later minus earlier. The
  window is the last \<open>t\<close> records of the history, or all of it when it has fewer. An
  issue count falls on a pair when the later count is smaller, and rises when it is
  larger.
\<close>

definition quality_seq :: "IterationRecord list \<Rightarrow> real list" where
  "quality_seq history' = map (\<lambda>h. quality_or (codexReview h) 0) history'"

definition adjacent :: "'a list \<Rightarrow> ('a \<times> 'a) list" where
  "adjacent xs = zip xs (tl xs)"

definition computed_deltas :: "float_ops \<Rightarrow> real list \<Rightarrow> real list" where
  "computed_deltas fp qs = map (\<lambda>(p, c). rnd fp (c - p)) (adjacent qs)"

definition last_records :: "int \<Rightarrow> 'a list \<Rightarrow> 'a list" where
  "last_records t xs = drop (length xs - nat t) xs"

definition window_deltas :: "float_ops \<Rightarrow> int \<Rightarrow> IterationState \<Rightarrow> real list" where
  "window_deltas fp t state = computed_deltas fp (quality_seq (last_records t (history state)))"

definition window_issue_counts :: "int \<Rightarrow> IterationState \<Rightarrow> int list" where
  "window_issue_counts t state = map rec_issuesFound (last_records t (history state))"

definition count_falls :: "int list \<Rightarrow> nat" where
  "count_falls ns = length (filter (\<lambda>(p, c). c < p) (adjacent ns))"

definition count_rises :: "int list \<Rightarrow> nat" where
  "count_rises ns = length (filter (\<lambda>(p, c). p < c) (adjacent ns))"

definition history_deltas :: "float_ops \<Rightarrow> IterationState \<Rightarrow> real list" where
  "history_deltas fp state = computed_deltas fp (quality_seq (history state))"

text \<open>
  Sum, mean and variance of a list as the program computes them: the sum is
  accumulated from the left, starting at 0 and rounding after each addition; the
  mean is the rounded quotient of the sum by the length; the variance is the mean,
  computed the same way, of the squares of the rounded differences from the mean.
\<close>

primrec sum_back :: "float_ops \<Rightarrow> real list \<Rightarrow> real" where
  "sum_back fp [] = 0"
| "sum_back fp (x # xs) = rnd fp (sum_back fp xs + x)"

definition float_sum :: "float_ops \<Rightarrow> real list \<Rightarrow> real" where
  "float_sum fp xs = sum_back fp (rev xs)"

definition float_mean :: "float_ops \<Rightarrow> real list \<Rightarrow> real" where
  "float_mean fp xs = rnd fp (float_sum fp xs / real (length xs))"

definition float_variance :: "float_ops \<Rightarrow> real list \<Rightarrow> real" where
  "float_variance fp xs =
     rnd fp (float_sum fp (map (\<lambda>x. pow2 fp (rnd fp (x - float_mean fp xs))) xs)
             / real (length xs))"

text \<open>
  The positive deltas of the whole history, which the specification names as the
  basis of the projection.
\<close>

definition positive_deltas :: "float_ops \<Rightarrow> IterationState \<Rightarrow> real list" where
  "positive_deltas fp state = filter (\<lambda>d. 0 < d) (history_deltas fp state)"

text \<open>
  Sample histories: (overall quality, issue count) per iteration. The qualities are
  multiples of 1/128.
\<close>

definition ex_history :: "(real \<times> int) list \<Rightarrow> IterationRecord list" where
  "ex_history qs = map (\<lambda>(q, n). ex_record 0 (Some (ex_review q [])) n 0.25) qs"

definition ex_state_with :: "real \<Rightarrow> int \<Rightarrow> int \<Rightarrow> (real \<times> int) list \<Rightarrow> IterationState" where
  "ex_state_with q cur mx qs =
     (ex_state q 0)\<lparr>currentIteration := cur, maxIterations := mx, history := ex_history qs\<rparr>"

definition ex_rising_issues_falling :: IterationState where
  "ex_rising_issues_falling = ex_state_with 1 3 5 [(0.5, 3), (0.75, 2), (1, 1)]"

definition ex_rising_issues_rising :: IterationState where
  "ex_rising_issues_rising = ex_state_with 1 3 5 [(0.5, 1), (0.75, 2), (1, 3)]"

definition ex_slowly_rising :: IterationState where
  "ex_slowly_rising = ex_state_with 0.53125 3 5 [(0.5, 4), (0.515625, 4), (0.53125, 4)]"

definition ex_flat :: IterationState where
  "ex_flat = ex_state_with 0.515625 2 5 [(0.5, 8), (0.515625, 7)]"

definition ex_flat_issues_rising :: IterationState where
  "ex_flat_issues_rising = ex_state_with 0.5 3 5 [(0.5, 1), (0.5, 2), (0.5, 3)]"

definition ex_falling :: IterationState where
  "ex_falling = ex_state_with 0.5 3 5 [(1, 1), (0.75, 1), (0.5, 1)]"

definition ex_slowly_falling :: IterationState where
  "ex_slowly_falling = ex_state_with 0.5 3 5 [(0.53125, 4), (0.515625, 4), (0.5, 4)]"

definition ex_dip :: IterationState where
  "ex_dip = ex_state_with 0.375 3 10 [(0.5, 4), (0.25, 4), (0.375, 4)]"

definition ex_steady :: IterationState where
  "ex_steady = ex_state_with 0.5 3 10 [(0.25, 4), (0.375, 4), (0.5, 4)]"

lemmas ex_defs = ex_state_with_def ex_state_def ex_history_def ex_record_def ex_review_def

lemmas detect_defs = detectConvergence_def slice_neg_def analyzeQualityTrend_def
  analyzeIssueTrend_def calculateOverallTrend_def quality_or_def quality_seq_def
  last_records_def window_deltas_def window_issue_counts_def computed_deltas_def
  adjacent_def count_falls_def count_rises_def exact_ops_def Let_def

lemmas ex_trend_defs = ex_rising_issues_falling_def ex_rising_issues_rising_def
  ex_slowly_rising_def ex_flat_def ex_flat_issues_rising_def ex_falling_def
  ex_slowly_falling_def ex_dip_def ex_steady_def

subsection \<open>Trend classification\<close>

lemma adjacent_simps [simp]:
  "adjacent [] = []"
  "adjacent [x] = []"
  "adjacent (p # c # rest) = (p, c) # adjacent (c # rest)"
  by (simp_all add: adjacent_def)

lemma computed_deltas_simps [simp]:
  "computed_deltas fp [] = []"
  "computed_deltas fp [x] = []"
  "computed_deltas fp (p # c # rest) = rnd fp (c - p) # computed_deltas fp (c # rest)"
  by (simp_all add: computed_deltas_def)

lemma computed_deltas_length: "length (computed_deltas fp qs) = length qs - 1"
  by (simp add: computed_deltas_def adjacent_def)

lemma computed_deltas_nth:
  "i + 1 < length qs \<Longrightarrow> computed_deltas fp qs ! i = rnd fp (qs ! (i + 1) - qs ! i)"
  by (simp add: computed_deltas_def adjacent_def nth_tl)

lemma count_quality_up:
  "\<forall>d\<in>set (computed_deltas fp qs). d > rnd fp 0.02 \<Longrightarrow>
     count_quality_steps fp qs (a, b, c) = (a + length (computed_deltas fp qs), b, c)"
  by (induction qs arbitrary: a rule: induct_list012) (simp_all add: Let_def)

lemma count_quality_down:
  "0 \<le> rnd fp 0.02 \<Longrightarrow> \<forall>d\<in>set (computed_deltas fp qs). d < - rnd fp 0.02 \<Longrightarrow>
     count_quality_steps fp qs (a, b, c) = (a, b + length (computed_deltas fp qs), c)"
  by (induction qs arbitrary: b rule: induct_list012) (simp_all add: Let_def)

lemma count_quality_flat:
  "\<forall>d\<in>set (computed_deltas fp qs). \<bar>d\<bar> \<le> rnd fp 0.02 \<Longrightarrow>
     count_quality_steps fp qs (a, b, c) = (a, b, c + length (computed_deltas fp qs))"
  by (induction qs arbitrary: c rule: induct_list012) (auto simp add: Let_def)

lemma count_issue_steps_counts:
  "fst (count_issue_steps ns (a, b, c)) = a + count_falls ns
   \<and> fst (snd (count_issue_steps ns (a, b, c))) = b + count_rises ns"
proof (induction ns arbitrary: a b c rule: induct_list012)
  case (3 x y zs)
  show ?case using "3.IH"(2) by (auto simp add: count_falls_def count_rises_def)
qed (simp_all add: count_falls_def count_rises_def)

lemma analyzeIssueTrend_counts:
  "i_decreasing (analyzeIssueTrend h)
     = (count_rises (map rec_issuesFound h) < count_falls (map rec_issuesFound h))"
  "i_increasing (analyzeIssueTrend h)
     = (count_falls (map rec_issuesFound h) < count_rises (map rec_issuesFound h))"
proof -
  obtain s where "count_issue_steps (map rec_issuesFound h) (0, 0, 0)
      = (count_falls (map rec_issuesFound h), count_rises (map rec_issuesFound h), s)"
    using count_issue_steps_counts [of "map rec_issuesFound h" 0 0 0]
    by (cases "count_issue_steps (map rec_issuesFound h) (0, 0, 0)") auto
  then show "i_decreasing (analyzeIssueTrend h)
     = (count_rises (map rec_issuesFound h) < count_falls (map rec_issuesFound h))"
    and "i_increasing (analyzeIssueTrend h)
     = (count_falls (map rec_issuesFound h) < count_rises (map rec_issuesFound h))"
    by (simp_all add: analyzeIssueTrend_def Let_def)
qed

lemma slice_neg_last_records: "2 \<le> t \<Longrightarrow> slice_neg t xs = last_records t xs"
  by (simp add: slice_neg_def last_records_def Let_def nat_diff_distrib' max_def)

lemma last_records_length: "2 \<le> t \<Longrightarrow> 2 \<le> length xs \<Longrightarrow> 2 \<le> length (last_records t xs)"
  by (simp add: last_records_def)

lemma flat_span:
  "\<forall>(p, c)\<in>set (adjacent qs). \<bar>c - p\<bar> \<le> e \<Longrightarrow> qs \<noteq> [] \<Longrightarrow>
     \<bar>last qs - hd qs\<bar> \<le> e * real (length qs - 1)"
proof (induction qs rule: induct_list012)
  case (3 p c rest)
  then have "\<bar>last (c # rest) - c\<bar> \<le> e * real (length rest)" and "\<bar>c - p\<bar> \<le> e"
    by simp_all
  then show ?case by (simp add: algebra_simps)
qed simp_all

lemma rounding_ok_literals:
  assumes "rounding_ok fp"
  shows "0.0199 \<le> rnd fp 0.02" and "rnd fp 0.02 \<le> 0.0201" and "0.0499 \<le> rnd fp 0.05"
proof -
  have "\<bar>rnd fp 0.02 - 0.02\<bar> \<le> \<bar>0.02\<bar> / 10 ^ 6 + 1 / 10 ^ 6"
    and "\<bar>rnd fp 0.05 - 0.05\<bar> \<le> \<bar>0.05\<bar> / 10 ^ 6 + 1 / 10 ^ 6"
    using assms unfolding rounding_ok_def by blast+
  then show "0.0199 \<le> rnd fp 0.02" and "rnd fp 0.02 \<le> 0.0201" and "0.0499 \<le> rnd fp 0.05"
    unfolding abs_le_iff by simp_all
qed

lemma rounding_ok_abs:
  assumes "rounding_ok fp"
  shows "\<bar>rnd fp x\<bar> \<le> \<bar>x\<bar> + \<bar>x\<bar> / 10 ^ 6 + 1 / 10 ^ 6"
    and "\<bar>x\<bar> \<le> \<bar>rnd fp x\<bar> + \<bar>x\<bar> / 10 ^ 6 + 1 / 10 ^ 6"
proof -
  have "\<bar>rnd fp x - x\<bar> \<le> \<bar>x\<bar> / 10 ^ 6 + 1 / 10 ^ 6"
    using assms unfolding rounding_ok_def by blast
  then show "\<bar>rnd fp x\<bar> \<le> \<bar>x\<bar> + \<bar>x\<bar> / 10 ^ 6 + 1 / 10 ^ 6"
    and "\<bar>x\<bar> \<le> \<bar>rnd fp x\<bar> + \<bar>x\<bar> / 10 ^ 6 + 1 / 10 ^ 6"
    by linarith+
qed

lemma flat_exact_bound:
  assumes "rounding_ok fp" and "\<bar>rnd fp x\<bar> \<le> rnd fp 0.02"
  shows "\<bar>x\<bar> \<le> 0.021"
  using rounding_ok_abs(2) [OF assms(1), of x] rounding_ok_literals(2) [OF assms(1)] assms(2)
  by simp

lemma trend_small:
  assumes ok: "rounding_ok fp" and n: "1 \<le> n" and y: "\<bar>y\<bar> \<le> 0.021 * n"
  shows "\<bar>rnd fp (rnd fp y / n)\<bar> \<le> rnd fp 0.05"
proof -
  have "\<bar>rnd fp y\<bar> \<le> \<bar>y\<bar> + \<bar>y\<bar> / 10 ^ 6 + 1 / 10 ^ 6"
    by (rule rounding_ok_abs(1) [OF ok])
  then have "\<bar>rnd fp y\<bar> \<le> 0.0211 * n" using y n by simp
  moreover have pos: "0 < n" using n by simp
  ultimately have "\<bar>rnd fp y\<bar> / n \<le> 0.0211" by (simp only: pos_divide_le_eq)
  then have z: "\<bar>rnd fp y / n\<bar> \<le> 0.0211" using pos by simp
  have "\<bar>rnd fp (rnd fp y / n)\<bar>
          \<le> \<bar>rnd fp y / n\<bar> + \<bar>rnd fp y / n\<bar> / 10 ^ 6 + 1 / 10 ^ 6"
    by (rule rounding_ok_abs(1) [OF ok])
  then have "\<bar>rnd fp (rnd fp y / n)\<bar> \<le> 0.0212" using z by simp
  then show ?thesis using rounding_ok_literals(3) [OF ok] by simp
qed

lemma detect_unfold:
  assumes "2 \<le> length (history state)" and "2 \<le> t"
  shows "det_status (detectConvergence fp t state) =
     (let w = last_records t (history state);
          qt = analyzeQualityTrend fp w; it = analyzeIssueTrend w in
      if q_improving qt \<and> i_decreasing it then Improving
      else if q_stagnant qt \<and> i_stagnant it then Stagnant
      else if q_regressing qt \<or> i_increasing it then Regressing
      else if calculateOverallTrend fp w > rnd fp 0.05 then Improving
      else if \<bar>calculateOverallTrend fp w\<bar> \<le> rnd fp 0.05 then Stagnant
      else Regressing)"
  using assms
  by (auto simp add: detectConvergence_def slice_neg_last_records Let_def)

lemma window_ge2:
  assumes "2 \<le> length (history state)" and "2 \<le> t"
  shows "2 \<le> length (quality_seq (last_records t (history state)))"
  using last_records_length [OF assms(2) assms(1)] by (simp add: quality_seq_def)

lemma detect_up:
  assumes "2 \<le> length (history state)" and "2 \<le> t"
    and "\<forall>d\<in>set (window_deltas fp t state). d > rnd fp 0.02"
    and "count_rises (window_issue_counts t state) < count_falls (window_issue_counts t state)"
  shows "det_status (detectConvergence fp t state) = Improving"
proof -
  let ?w = "last_records t (history state)"
  let ?qs = "quality_seq ?w"
  have len: "0 < length (computed_deltas fp ?qs)"
    using window_ge2 [OF assms(1,2)] by (simp add: computed_deltas_length)
  have "count_quality_steps fp ?qs (0, 0, 0) = (length (computed_deltas fp ?qs), 0, 0)"
    using count_quality_up [of fp ?qs 0 0 0] assms(3) by (simp add: window_deltas_def)
  then have "q_improving (analyzeQualityTrend fp ?w)"
    using len by (simp add: analyzeQualityTrend_def quality_seq_def Let_def)
  moreover have "i_decreasing (analyzeIssueTrend ?w)"
    using assms(4) by (simp add: analyzeIssueTrend_counts window_issue_counts_def)
  ultimately show ?thesis by (simp add: detect_unfold [OF assms(1,2)] Let_def)
qed

lemma detect_down:
  assumes "2 \<le> length (history state)" and "2 \<le> t" and "rounding_ok fp"
    and "\<forall>d\<in>set (window_deltas fp t state). d < - rnd fp 0.02"
  shows "det_status (detectConvergence fp t state) = Regressing"
proof -
  let ?w = "last_records t (history state)"
  let ?qs = "quality_seq ?w"
  have len2: "2 \<le> length ?qs" by (rule window_ge2 [OF assms(1,2)])
  then have len: "0 < length (computed_deltas fp ?qs)" by (simp add: computed_deltas_length)
  have c0: "0 \<le> rnd fp 0.02" using rounding_ok_literals(1) [OF assms(3)] by simp
  have cnt: "count_quality_steps fp ?qs (0, 0, 0) = (0, length (computed_deltas fp ?qs), 0)"
    using count_quality_down [OF c0, of ?qs 0 0 0] assms(4) by (simp add: window_deltas_def)
  have "\<not> q_improving (analyzeQualityTrend fp ?w)"
    and "\<not> q_stagnant (analyzeQualityTrend fp ?w)"
    and "q_regressing (analyzeQualityTrend fp ?w)"
    using cnt len len2 by (simp_all add: analyzeQualityTrend_def quality_seq_def Let_def)
  then show ?thesis by (simp add: detect_unfold [OF assms(1,2)] Let_def)
qed

lemma detect_flat:
  assumes "2 \<le> length (history state)" and "2 \<le> t" and ok: "rounding_ok fp"
    and "\<forall>d\<in>set (window_deltas fp t state). \<bar>d\<bar> \<le> rnd fp 0.02"
    and "count_rises (window_issue_counts t state) \<le> count_falls (window_issue_counts t state)"
  shows "det_status (detectConvergence fp t state) = Stagnant"
proof -
  let ?w = "last_records t (history state)"
  let ?qs = "quality_seq ?w"
  have len2: "2 \<le> length ?qs" by (rule window_ge2 [OF assms(1,2)])
  then have wlen: "2 \<le> length ?w" by (simp add: quality_seq_def)
  then have wne: "?w \<noteq> []" by auto
  have flat: "\<forall>d\<in>set (computed_deltas fp ?qs). \<bar>d\<bar> \<le> rnd fp 0.02"
    using assms(4) by (simp add: window_deltas_def)
  have cnt: "count_quality_steps fp ?qs (0, 0, 0) = (0, 0, length (computed_deltas fp ?qs))"
    using count_quality_flat [of fp ?qs 0 0 0] flat by simp
  have qt: "\<not> q_improving (analyzeQualityTrend fp ?w)"
           "\<not> q_regressing (analyzeQualityTrend fp ?w)"
    using cnt by (simp_all add: analyzeQualityTrend_def quality_seq_def Let_def)
  have it: "\<not> i_increasing (analyzeIssueTrend ?w)"
    using assms(5) by (simp add: analyzeIssueTrend_counts window_issue_counts_def)
  have exact: "\<forall>(p, c)\<in>set (adjacent ?qs). \<bar>c - p\<bar> \<le> 0.021"
  proof (clarify)
    fix p c assume "(p, c) \<in> set (adjacent ?qs)"
    then have "rnd fp (c - p) \<in> set (computed_deltas fp ?qs)"
      by (force simp add: computed_deltas_def)
    then have "\<bar>rnd fp (c - p)\<bar> \<le> rnd fp 0.02" using flat by blast
    then show "\<bar>c - p\<bar> \<le> 0.021" by (rule flat_exact_bound [OF ok])
  qed
  have "?qs \<noteq> []" using len2 by auto
  then have span: "\<bar>last ?qs - hd ?qs\<bar> \<le> 0.021 * real (length ?qs - 1)"
    using flat_span [of ?qs "0.021"] exact by simp
  have hd_last: "hd ?qs = quality_or (codexReview (hd ?w)) 0"
       "last ?qs = quality_or (codexReview (last ?w)) 0"
    using wne by (simp_all add: quality_seq_def hd_map last_map)
  have trend: "calculateOverallTrend fp ?w
                 = rnd fp (rnd fp (last ?qs - hd ?qs) / real (length ?w))"
    using wlen by (simp add: calculateOverallTrend_def hd_last Let_def)
  have "0.021 * real (length ?qs - 1) \<le> 0.021 * real (length ?w)"
    by (simp add: quality_seq_def)
  then have y: "\<bar>last ?qs - hd ?qs\<bar> \<le> 0.021 * real (length ?w)"
    using span by linarith
  have n: "1 \<le> real (length ?w)" using wlen by simp
  have small: "\<bar>calculateOverallTrend fp ?w\<bar> \<le> rnd fp 0.05"
    unfolding trend by (rule trend_small [OF ok n y])
  then have notbig: "\<not> calculateOverallTrend fp ?w > rnd fp 0.05" by linarith
  show ?thesis
    using qt it small notbig by (simp add: detect_unfold [OF assms(1,2)] Let_def)
qed

text \<open>
  C6, as stated, fails. A strictly increasing quality sequence (0.5, 0.75, 1) whose
  issue counts rise is classified as regressing, and one that rises by 1/64 per step
  as stagnant; a flat sequence whose issue counts rise is classified as regressing; a
  sequence that falls by 1/64 per step is classified as stagnant. On these histories
  every operation of the program is exact.
\<close>

theorem detectConvergence_trend_counterexample:
  "computed_deltas exact_ops (quality_seq (history ex_rising_issues_rising)) = [0.25, 0.25]
   \<and> det_status (detectConvergence exact_ops 3 ex_rising_issues_rising) = Regressing
   \<and> computed_deltas exact_ops (quality_seq (history ex_slowly_rising))
       = [0.015625, 0.015625]
   \<and> det_status (detectConvergence exact_ops 3 ex_slowly_rising) = Stagnant
   \<and> computed_deltas exact_ops (quality_seq (history ex_flat_issues_rising)) = [0, 0]
   \<and> det_status (detectConvergence exact_ops 3 ex_flat_issues_rising) = Regressing
   \<and> computed_deltas exact_ops (quality_seq (history ex_slowly_falling))
       = [- 0.015625, - 0.015625]
   \<and> det_status (detectConvergence exact_ops 3 ex_slowly_falling) = Stagnant"
  by (simp add: ex_trend_defs ex_defs detect_defs)

text \<open>
  C6, amended. Let the history have at least two records and the stagnation threshold
  be at least 2 (it is 3 by default), and let the window be the last
  \<open>stagnationThreshold\<close> records of the history (all of it when it has fewer). The
  deltas are the differences of adjacent qualities in the window as the program
  computes them, in binary64 arithmetic, and 0.02 is the binary64 value of that
  literal. If every delta is above 0.02 and the issue count falls on more adjacent
  pairs of the window than it rises, the status is improving. If every delta is
  within 0.02 of zero and the issue count does not rise on more pairs than it falls,
  the status is stagnant. If every delta is below -0.02, the status is regressing.
\<close>

theorem detectConvergence_window_classification:
  assumes "2 \<le> length (history state)" and "2 \<le> stagnationThreshold"
    and "rounding_ok fp"
  shows "((\<forall>d\<in>set (window_deltas fp stagnationThreshold state). d > rnd fp 0.02)
          \<and> count_rises (window_issue_counts stagnationThreshold state)
              < count_falls (window_issue_counts stagnationThreshold state)
          \<longrightarrow> det_status (detectConvergence fp stagnationThreshold state) = Improving)
       \<and> ((\<forall>d\<in>set (window_deltas fp stagnationThreshold state). \<bar>d\<bar> \<le> rnd fp 0.02)
          \<and> count_rises (window_issue_counts stagnationThreshold state)
              \<le> count_falls (window_issue_counts stagnationThreshold state)
          \<longrightarrow> det_status (detectConvergence fp stagnationThreshold state) = Stagnant)
       \<and> ((\<forall>d\<in>set (window_deltas fp stagnationThreshold state). d < - rnd fp 0.02)
          \<longrightarrow> det_status (detectConvergence fp stagnationThreshold state) = Regressing)"
  using detect_up [OF assms(1,2)] detect_flat [OF assms] detect_down [OF assms] by blast

theorem detectConvergence_window_classification_witness:
  "2 \<le> length (history ex_rising_issues_falling)
   \<and> rounding_ok exact_ops
   \<and> window_deltas exact_ops 3 ex_rising_issues_falling = [0.25, 0.25]
   \<and> window_issue_counts 3 ex_rising_issues_falling = [3, 2, 1]
   \<and> det_status (detectConvergence exact_ops 3 ex_rising_issues_falling) = Improving
   \<and> window_deltas exact_ops 3 ex_flat = [0.015625]
   \<and> window_issue_counts 3 ex_flat = [8, 7]
   \<and> det_status (detectConvergence exact_ops 3 ex_flat) = Stagnant
   \<and> window_deltas exact_ops 3 ex_falling = [- 0.25, - 0.25]
   \<and> det_status (detectConvergence exact_ops 3 ex_falling) = Regressing"
proof -
  have t: "(2::int) \<le> 3" by simp
  have ok: "rounding_ok exact_ops" by (simp add: rounding_ok_def exact_ops_def)
  have r: "rnd exact_ops = (\<lambda>x. x)" by (simp add: exact_ops_def)
  have l1: "2 \<le> length (history ex_rising_issues_falling)"
   and l2: "2 \<le> length (history ex_flat)"
   and l3: "2 \<le> length (history ex_falling)"
    by (simp_all add: ex_trend_defs ex_defs)
  have w1: "window_deltas exact_ops 3 ex_rising_issues_falling = [0.25, 0.25]"
   and w2: "window_deltas exact_ops 3 ex_flat = [0.015625]"
   and w3: "window_deltas exact_ops 3 ex_falling = [- 0.25, - 0.25]"
    by (simp_all add: ex_trend_defs ex_defs detect_defs)
  have n1: "window_issue_counts 3 ex_rising_issues_falling = [3, 2, 1]"
   and n2: "window_issue_counts 3 ex_flat = [8, 7]"
    by (simp_all add: ex_trend_defs ex_defs detect_defs)
  have i1: "count_rises (window_issue_counts 3 ex_rising_issues_falling)
              < count_falls (window_issue_counts 3 ex_rising_issues_falling)"
   and i2: "count_rises (window_issue_counts 3 ex_flat)
              \<le> count_falls (window_issue_counts 3 ex_flat)"
    by (simp_all add: n1 n2 count_falls_def count_rises_def)
  have b1: "\<forall>d\<in>set (window_deltas exact_ops 3 ex_rising_issues_falling).
              d > rnd exact_ops 0.02"
   and b2: "\<forall>d\<in>set (window_deltas exact_ops 3 ex_flat). \<bar>d\<bar> \<le> rnd exact_ops 0.02"
   and b3: "\<forall>d\<in>set (window_deltas exact_ops 3 ex_falling). d < - rnd exact_ops 0.02"
    by (simp_all add: w1 w2 w3 r)
  have "det_status (detectConvergence exact_ops 3 ex_rising_issues_falling) = Improving"
    using detectConvergence_window_classification [OF l1 t ok] b1 i1 by blast
  moreover have "det_status (detectConvergence exact_ops 3 ex_flat) = Stagnant"
    using detectConvergence_window_classification [OF l2 t ok] b2 i2 by blast
  moreover have "det_status (detectConvergence exact_ops 3 ex_falling) = Regressing"
    using detectConvergence_window_classification [OF l3 t ok] b3 by blast
  ultimately show ?thesis using l1 ok w1 w2 w3 n1 n2 by blast
qed

subsection \<open>Projection\<close>

lemma improvements_of_deltas: "improvements_of fp h = computed_deltas fp (quality_seq h)"
proof (rule nth_equalityI)
  show "length (improvements_of fp h) = length (computed_deltas fp (quality_seq h))"
    by (simp add: improvements_of_def computed_deltas_length quality_seq_def)
next
  fix i assume "i < length (improvements_of fp h)"
  then have i: "i + 1 < length h" by (simp add: improvements_of_def)
  then have idx: "[1..<length h] ! i = i + 1" by simp
  have "improvements_of fp h ! i =
          rnd fp (quality_or (codexReview (h ! (i + 1))) 0 - quality_or (codexReview (h ! i)) 0)"
    using i idx by (simp add: improvements_of_def Let_def)
  then show "improvements_of fp h ! i = computed_deltas fp (quality_seq h) ! i"
    using i by (simp add: computed_deltas_nth quality_seq_def)
qed

lemma sum_back_foldr: "sum_back fp ys = foldr (\<lambda>v s. rnd fp (s + v)) ys 0"
  by (induction ys) simp_all

lemma foldl_float_sum: "foldl (\<lambda>sum val. rnd fp (sum + val)) 0 xs = float_sum fp xs"
  by (simp add: float_sum_def sum_back_foldr foldl_conv_foldr)

lemma calculateVariance_eq: "xs \<noteq> [] \<Longrightarrow> calculateVariance fp xs = float_variance fp xs"
  by (simp add: calculateVariance_def float_variance_def float_mean_def foldl_float_sum Let_def)

text \<open>
  C7, as stated, fails. The history with qualities 0.5, 0.25, 0.375 has one positive
  delta, 0.125, from which the claim projects 5 iterations to go from 0.375 to 0.9375,
  within the 7 that remain; the code averages all deltas, finds -0.0625, and reports
  that the target will not be reached, with an estimate of -1. On this history every
  operation of the program is exact.
\<close>

theorem predictConvergence_positive_mean_counterexample:
  "positive_deltas exact_ops ex_dip = [0.125]
   \<and> \<lceil>(0.9375 - qualityScore ex_dip) / float_mean exact_ops (positive_deltas exact_ops ex_dip)\<rceil>
       = 5
   \<and> 5 \<le> maxIterations ex_dip - currentIteration ex_dip
   \<and> \<not> willReach (predictConvergence exact_ops ex_dip 0.9375)
   \<and> estimatedIterations (predictConvergence exact_ops ex_dip 0.9375) = - 1"
  by (simp add: positive_deltas_def history_deltas_def float_mean_def float_sum_def
        predictConvergence_def improvements_of_def upt_rec ex_trend_defs ex_defs quality_or_def
        quality_seq_def computed_deltas_def adjacent_def exact_ops_def Let_def)

text \<open>
  C7, amended. For a state below the target with at least two history records, the
  expected improvement rate is the mean of all adjacent quality deltas of the history,
  positive or not, as the program computes it in binary64 arithmetic: each delta a
  rounded difference, the sum accumulated from the left, the quotient by the number of
  deltas rounded. If this mean is not positive, the prediction is that the target will
  not be reached (estimate -1, confidence 0.9). Otherwise the estimate is the ceiling
  of the computed quotient of the computed difference target - current score by the
  mean; the target is predicted to be reached exactly when the estimate is at most
  maxIterations - currentIteration; and the confidence is 1 minus the computed
  variance of all the deltas, but at least 0.4.
\<close>

theorem predictConvergence_mean_of_all_deltas:
  assumes "qualityScore state < targetQuality" and "2 \<le> length (history state)"
  shows "(float_mean fp (history_deltas fp state) \<le> 0 \<longrightarrow>
            predictConvergence fp state targetQuality =
              \<lparr> willReach = False, estimatedIterations = - 1, pred_confidence = rnd fp 0.9 \<rparr>)
       \<and> (0 < float_mean fp (history_deltas fp state) \<longrightarrow>
            predictConvergence fp state targetQuality =
              \<lparr> willReach =
                  (\<lceil>rnd fp (rnd fp (targetQuality - qualityScore state)
                             / float_mean fp (history_deltas fp state))\<rceil>
                     \<le> maxIterations state - currentIteration state),
                estimatedIterations =
                  \<lceil>rnd fp (rnd fp (targetQuality - qualityScore state)
                            / float_mean fp (history_deltas fp state))\<rceil>,
                pred_confidence =
                  max (rnd fp 0.4) (rnd fp (1 - float_variance fp (history_deltas fp state))) \<rparr>)"
proof -
  let ?ds = "history_deltas fp state"
  have imp: "improvements_of fp (history state) = ?ds"
    by (simp add: improvements_of_deltas history_deltas_def)
  have ne: "?ds \<noteq> []"
  proof
    assume "?ds = []"
    then have "length ?ds = 0" by simp
    then show False
      using assms(2) by (simp add: history_deltas_def computed_deltas_length quality_seq_def)
  qed
  have avg: "rnd fp (float_sum fp ?ds / real (length ?ds)) = float_mean fp ?ds"
    by (simp add: float_mean_def)
  show ?thesis
    using assms
    by (simp add: predictConvergence_def imp foldl_float_sum avg Let_def
          calculateVariance_eq [OF ne])
qed

theorem predictConvergence_mean_of_all_deltas_witness:
  "qualityScore ex_steady < 0.9375
   \<and> 2 \<le> length (history ex_steady)
   \<and> history_deltas exact_ops ex_steady = [0.125, 0.125]
   \<and> float_mean exact_ops (history_deltas exact_ops ex_steady) = 0.125
   \<and> predictConvergence exact_ops ex_steady 0.9375
      = \<lparr> willReach = True, estimatedIterations = 4, pred_confidence = 1 \<rparr>
   \<and> history_deltas exact_ops ex_dip = [- 0.25, 0.125]
   \<and> float_mean exact_ops (history_deltas exact_ops ex_dip) = - 0.0625
   \<and> predictConvergence exact_ops ex_dip 0.9375
      = \<lparr> willReach = False, estimatedIterations = - 1,
          pred_confidence = rnd exact_ops 0.9 \<rparr>"
proof -
  have q1: "qualityScore ex_steady < 0.9375" and q2: "qualityScore ex_dip < 0.9375"
   and l1: "2 \<le> length (history ex_steady)" and l2: "2 \<le> length (history ex_dip)"
    by (simp_all add: ex_trend_defs ex_defs)
  have d1: "history_deltas exact_ops ex_steady = [0.125, 0.125]"
   and d2: "history_deltas exact_ops ex_dip = [- 0.25, 0.125]"
    by (simp_all add: history_deltas_def ex_trend_defs ex_defs quality_or_def quality_seq_def
          computed_deltas_def adjacent_def exact_ops_def)
  have m1: "float_mean exact_ops (history_deltas exact_ops ex_steady) = 0.125"
   and m2: "float_mean exact_ops (history_deltas exact_ops ex_dip) = - 0.0625"
   and v1: "float_variance exact_ops (history_deltas exact_ops ex_steady) = 0"
    unfolding float_mean_def float_variance_def float_sum_def d1 d2
    by (simp_all add: exact_ops_def)
  have s1: "qualityScore ex_steady = 0.5" "maxIterations ex_steady = 10"
           "currentIteration ex_steady = 3"
    by (simp_all add: ex_trend_defs ex_defs)
  have r: "rnd exact_ops = (\<lambda>x. x)" by (simp add: exact_ops_def)
  have pos: "0 < float_mean exact_ops (history_deltas exact_ops ex_steady)"
   and neg: "float_mean exact_ops (history_deltas exact_ops ex_dip) \<le> 0"
    by (simp_all add: m1 m2)
  have "predictConvergence exact_ops ex_steady 0.9375
          = \<lparr> willReach =
                (\<lceil>rnd exact_ops (rnd exact_ops (0.9375 - qualityScore ex_steady)
                     / float_mean exact_ops (history_deltas exact_ops ex_steady))\<rceil>
                   \<le> maxIterations ex_steady - currentIteration ex_steady),
              estimatedIterations =
                \<lceil>rnd exact_ops (rnd exact_ops (0.9375 - qualityScore ex_steady)
                     / float_mean exact_ops (history_deltas exact_ops ex_steady))\<rceil>,
              pred_confidence =
                max (rnd exact_ops 0.4)
                    (rnd exact_ops
                       (1 - float_variance exact_ops (history_deltas exact_ops ex_steady))) \<rparr>"
    using predictConvergence_mean_of_all_deltas [OF q1 l1] pos by blast
  then have "predictConvergence exact_ops ex_steady 0.9375
          = \<lparr> willReach = True, estimatedIterations = 4, pred_confidence = 1 \<rparr>"
    by (simp add: m1 v1 s1 r)
  moreover have "predictConvergence exact_ops ex_dip 0.9375
      = \<lparr> willReach = False, estimatedIterations = - 1,
          pred_confidence = rnd exact_ops 0.9 \<rparr>"
    using predictConvergence_mean_of_all_deltas [OF q2 l2, of exact_ops] neg by blast
  ultimately show ?thesis using q1 l1 d1 d2 m1 m2 by blast
qed

section \<open>Orchestrator loop (scripts/orchestrator/index.ts)\<close>

text \<open>
  \<^verbatim>\<open>QualityAnalyzer.isImproving\<close> reads the field \<^verbatim>\<open>qualityScore\<close> of each entry of
  the list it is given; an entry without that field reads as undefined, and a
  comparison with undefined is false. The entries are therefore optional numbers.
\<close>

definition isImproving :: "real option list \<Rightarrow> bool" where
  "isImproving history' =
     (if length history' < 2 then True
      else let recentHistory = slice_neg 3 history';
               improvementCount =
                 length (filter (\<lambda>i. case (recentHistory ! i, recentHistory ! (i - 1)) of
                                         (Some cur, Some prev) \<Rightarrow> cur > prev
                                       | _ \<Rightarrow> False)
                           [1..<length recentHistory])
           in int improvementCount \<ge> (int (length recentHistory) + 1) div 2)"

text \<open>
  The loop talks to its collaborators (the Checker, the Maker, GitHub and the state
  file). Every such call is logged as an event, tagged with the iteration counter at
  the time of the call.
\<close>

datatype call =
    Save_state
  | Post_status_comment
  | Review_code
  | Post_codex_review
  | Get_CI_status
  | Post_merge_decision
  | Merge_PR
  | Post_auto_merged
  | Add_label_ready
  | Respond_to_feedback
  | Post_claude_response
  | Post_stagnation
  | Post_cost_limit
  | Get_PR_context
  | Post_max_iterations
  | Add_label_attention

type_synonym event = "int \<times> call"

text \<open>
  The collaborators are oracles. \<^verbatim>\<open>reviewCode\<close>, \<^verbatim>\<open>respondToFeedback\<close> and
  \<^verbatim>\<open>getCIStatus\<close> catch their own failures and always return a result, here chosen by
  the iteration number. A GitHub call or a write of the state file may raise; whether
  it does is decided by \<open>throws\<close> from the log up to and including the attempted
  call. \<open>clock\<close> is the time stamp used in an iteration. Console output and the pause
  between iterations are left out.
\<close>

record env =
  reviewCode :: "int \<Rightarrow> CodexReviewResult"
  respondToFeedback :: "int \<Rightarrow> ClaudeResponseResult"
  getCIStatus :: "int \<Rightarrow> ci_status"
  throws :: "event list \<Rightarrow> bool"
  clock :: "int \<Rightarrow> string"

text \<open>
  One pass through the loop body ends by going round again, by \<^verbatim>\<open>break\<close>, or by an
  exception that leaves \<^verbatim>\<open>runIterations\<close>; in each case the state object and the log
  are as they were at that point.
\<close>

datatype step =
    Continue IterationState "event list"
  | Break IterationState "event list"
  | Throw IterationState "event list"

fun step_state :: "step \<Rightarrow> IterationState" where
  "step_state (Continue s tr) = s"
| "step_state (Break s tr) = s"
| "step_state (Throw s tr) = s"

fun step_trace :: "step \<Rightarrow> event list" where
  "step_trace (Continue s tr) = tr"
| "step_trace (Break s tr) = tr"
| "step_trace (Throw s tr) = tr"

text \<open>A call that may raise, followed by the rest of the body.\<close>

definition attempt ::
  "env \<Rightarrow> call \<Rightarrow> IterationState \<Rightarrow> event list \<Rightarrow> (event list \<Rightarrow> step) \<Rightarrow> step" where
  "attempt e c state tr k =
     (let tr' = tr @ [(currentIteration state, c)]
      in if throws e tr' then Throw state tr' else k tr')"

text \<open>A call that always returns.\<close>

definition invoke ::
  "call \<Rightarrow> IterationState \<Rightarrow> event list \<Rightarrow> (event list \<Rightarrow> step) \<Rightarrow> step" where
  "invoke c state tr k = k (tr @ [(currentIteration state, c)])"

text \<open>
  The two exits \<^verbatim>\<open>state.currentPhase = 'failed'; saveState(state); break\<close> and
  \<^verbatim>\<open>complete(state, true); break\<close>, the branch taken when the quality threshold is
  met, and the Maker step.
\<close>

definition fail_and_break :: "env \<Rightarrow> IterationState \<Rightarrow> event list \<Rightarrow> step" where
  "fail_and_break e state tr =
     (let state = state\<lparr>currentPhase := Failed\<rparr>;
          state = saveState (clock e (currentIteration state)) state
      in attempt e Save_state state tr (\<lambda>tr. Break state tr))"

definition complete_and_break :: "env \<Rightarrow> IterationState \<Rightarrow> event list \<Rightarrow> step" where
  "complete_and_break e state tr =
     (let state = complete (clock e (currentIteration state)) state True
      in attempt e Save_state state tr (\<lambda>tr. Break state tr))"

definition threshold_met_branch ::
  "env \<Rightarrow> MakerCheckerConfig \<Rightarrow> IterationState \<Rightarrow> CodexReviewResult \<Rightarrow> event list \<Rightarrow> step" where
  "threshold_met_branch e config state review tr =
     invoke Get_CI_status state tr (\<lambda>tr.
      let ciStatus = getCIStatus e (currentIteration state);
          decision = shouldMerge config state review ciStatus;
          state = recordIteration (clock e (currentIteration state)) state
                    \<lparr> iteration = currentIteration state, codexReview = Some review,
                      claudeResponse = None,
                      rec_issuesFound = int (length (issuesFound review)),
                      issuesFixed = 0, qualityDelta = 0, cost = review_cost review,
                      timestamp = [], durationSeconds = 0 \<rparr>
      in attempt e Save_state state tr (\<lambda>tr.
         attempt e Post_merge_decision state tr (\<lambda>tr.
           if md_shouldMerge decision then
             if \<not> md_requiresHumanApproval decision \<and> autoMergeEnabled config then
               attempt e Merge_PR state tr (\<lambda>tr.
               attempt e Post_auto_merged state tr (\<lambda>tr.
               complete_and_break e state tr))
             else attempt e Add_label_ready state tr (\<lambda>tr. complete_and_break e state tr)
           else complete_and_break e state tr)))"

definition maker_branch ::
  "env \<Rightarrow> MakerCheckerConfig \<Rightarrow> IterationState \<Rightarrow> CodexReviewResult \<Rightarrow> event list \<Rightarrow> step" where
  "maker_branch e config state review tr =
     (let state = updatePhase (clock e (currentIteration state)) state Claude_response
      in attempt e Save_state state tr (\<lambda>tr.
         attempt e Post_status_comment state tr (\<lambda>tr.
         invoke Respond_to_feedback state tr (\<lambda>tr.
         let claudeResponse' = respondToFeedback e (currentIteration state)
         in if claude_status claudeResponse' = Status_error then fail_and_break e state tr
            else
              attempt e Post_claude_response state tr (\<lambda>tr.
              let state = recordIteration (clock e (currentIteration state)) state
                    \<lparr> iteration = currentIteration state, codexReview = Some review,
                      claudeResponse = Some claudeResponse',
                      rec_issuesFound = int (length (issuesFound review)),
                      issuesFixed = issuesAddressed claudeResponse', qualityDelta = 0,
                      cost = review_cost review + claude_cost claudeResponse',
                      timestamp = [], durationSeconds = 0 \<rparr>
              in attempt e Save_state state tr (\<lambda>tr.
                 let isImproving' = isImproving (map (\<lambda>r. None) (history state));
                     state = updateConvergence (clock e (currentIteration state)) state
                               (if isImproving' then Conv_improving else Conv_stagnant)
                 in attempt e Save_state state tr (\<lambda>tr.
                    if \<not> isImproving' \<and> currentIteration state \<ge> 3 then
                      attempt e Post_stagnation state tr (\<lambda>tr. Break state tr)
                    else if totalCost state \<ge> maxCostPerPR config then
                      attempt e Post_cost_limit state tr (\<lambda>tr. Break state tr)
                    else attempt e Get_PR_context state tr (\<lambda>tr. Continue state tr))))))))"

text \<open>
  The loop body: start the iteration, let the Checker review, and branch on its
  result. The Maker branch passes the history to \<^const>\<open>isImproving\<close>; its records have
  no \<^verbatim>\<open>qualityScore\<close> field.
\<close>

definition iteration_body ::
  "env \<Rightarrow> MakerCheckerConfig \<Rightarrow> IterationState \<Rightarrow> event list \<Rightarrow> step" where
  "iteration_body e config state tr =
     (let state = startIteration (clock e (currentIteration state + 1)) state
      in attempt e Save_state state tr (\<lambda>tr.
         attempt e Post_status_comment state tr (\<lambda>tr.
         invoke Review_code state tr (\<lambda>tr.
         let codexReview' = reviewCode e (currentIteration state)
         in if status codexReview' = Status_error then fail_and_break e state tr
            else
              let qualityScore' = calculateQualityScore codexReview';
                  metrics = calculateMetrics codexReview';
                  state = state\<lparr>qualityScore := qualityScore'\<rparr>
              in attempt e Post_codex_review state tr (\<lambda>tr.
                 if meetsThreshold qualityScore' (qualityThreshold config) then
                   threshold_met_branch e config state codexReview' tr
                 else if length (issuesFound codexReview') = 0 then
                   complete_and_break e state tr
                 else maker_branch e config state codexReview' tr)))))"

datatype run_result =
    Returned IterationState "event list"
  | Thrown IterationState "event list"

fun run_state :: "run_result \<Rightarrow> IterationState" where
  "run_state (Returned s tr) = s"
| "run_state (Thrown s tr) = s"

fun run_trace :: "run_result \<Rightarrow> event list" where
  "run_trace (Returned s tr) = tr"
| "run_trace (Thrown s tr) = tr"

text \<open>
  Every pass through the body leaves the iteration counter one higher and the maximum
  unchanged, and logs only events of that iteration; this also shows that the loop
  ends.
\<close>

definition step_ok :: "int \<Rightarrow> int \<Rightarrow> event list \<Rightarrow> step \<Rightarrow> bool" where
  "step_ok n m tr st =
     (currentIteration (step_state st) = n \<and> maxIterations (step_state st) = m
      \<and> (\<exists>evs. step_trace st = tr @ evs \<and> (\<forall>ev\<in>set evs. fst ev = n)))"

lemma step_ok_attempt:
  assumes "currentIteration s = n" "maxIterations s = m"
    and "\<And>tr'. tr' = tr @ [(n, c)] \<Longrightarrow> step_ok n m tr' (k tr')"
  shows "step_ok n m tr (attempt e c s tr k)"
proof (cases "throws e (tr @ [(n, c)])")
  case True
  then show ?thesis using assms(1,2) by (simp add: attempt_def step_ok_def Let_def)
next
  case False
  from assms(3) [OF refl] obtain evs where
    "currentIteration (step_state (k (tr @ [(n, c)]))) = n"
    "maxIterations (step_state (k (tr @ [(n, c)]))) = m"
    "step_trace (k (tr @ [(n, c)])) = (tr @ [(n, c)]) @ evs"
    "\<forall>ev\<in>set evs. fst ev = n"
    by (auto simp: step_ok_def)
  then show ?thesis using False assms(1,2)
    by (simp add: attempt_def step_ok_def Let_def)
qed

lemma step_ok_invoke:
  assumes "currentIteration s = n"
    and "\<And>tr'. tr' = tr @ [(n, c)] \<Longrightarrow> step_ok n m tr' (k tr')"
  shows "step_ok n m tr (invoke c s tr k)"
proof -
  from assms(2) [OF refl] obtain evs where
    "step_trace (k (tr @ [(n, c)])) = (tr @ [(n, c)]) @ evs" "\<forall>ev\<in>set evs. fst ev = n"
    by (auto simp: step_ok_def)
  then have "step_trace (k (tr @ [(n, c)])) = tr @ ((n, c) # evs)
             \<and> (\<forall>ev\<in>set ((n, c) # evs). fst ev = n)"
    by simp
  then show ?thesis using assms(2) [OF refl] assms(1) unfolding step_ok_def invoke_def by blast
qed

lemma step_ok_Break: "currentIteration s = n \<Longrightarrow> maxIterations s = m \<Longrightarrow> step_ok n m tr (Break s tr)"
  by (simp add: step_ok_def)

lemma step_ok_Continue:
  "currentIteration s = n \<Longrightarrow> maxIterations s = m \<Longrightarrow> step_ok n m tr (Continue s tr)"
  by (simp add: step_ok_def)

lemma step_ok_fail:
  "currentIteration s = n \<Longrightarrow> maxIterations s = m \<Longrightarrow> step_ok n m tr (fail_and_break e s tr)"
  unfolding fail_and_break_def Let_def
  by (rule step_ok_attempt) (simp_all add: saveState_def step_ok_Break)

lemma step_ok_complete:
  "currentIteration s = n \<Longrightarrow> maxIterations s = m \<Longrightarrow> step_ok n m tr (complete_and_break e s tr)"
  unfolding complete_and_break_def Let_def
  by (rule step_ok_attempt) (simp_all add: complete_def saveState_def step_ok_Break)

lemma recordIteration_counters:
  "currentIteration (recordIteration now s r) = currentIteration s"
  "maxIterations (recordIteration now s r) = maxIterations s"
  by (simp_all add: recordIteration_def saveState_def Let_def)

lemma step_ok_threshold_met:
  assumes "currentIteration s = n" "maxIterations s = m"
  shows "step_ok n m tr (threshold_met_branch e config s review tr)"
  unfolding threshold_met_branch_def Let_def
  using assms
  by (auto intro!: step_ok_invoke step_ok_attempt step_ok_complete
        simp add: recordIteration_counters)

lemma step_ok_maker:
  assumes "currentIteration s = n" "maxIterations s = m"
  shows "step_ok n m tr (maker_branch e config s review tr)"
  unfolding maker_branch_def Let_def
  using assms
  by (auto intro!: step_ok_invoke step_ok_attempt step_ok_fail
          step_ok_Break step_ok_Continue
        simp add: recordIteration_counters updatePhase_def updateConvergence_def saveState_def)

lemma step_ok_body:
  "step_ok (currentIteration s + 1) (maxIterations s) tr (iteration_body e config s tr)"
  unfolding iteration_body_def Let_def
  by (auto intro!: step_ok_invoke step_ok_attempt step_ok_fail
          step_ok_complete step_ok_maker step_ok_threshold_met
        simp add: startIteration_def saveState_def)

function runLoop ::
  "env \<Rightarrow> MakerCheckerConfig \<Rightarrow> IterationState \<Rightarrow> event list \<Rightarrow> run_result" where
  "runLoop e config state tr =
     (if currentIteration state < maxIterations state then
        (case iteration_body e config state tr of
           Continue state' tr' \<Rightarrow> runLoop e config state' tr'
         | Break state' tr' \<Rightarrow> Returned state' tr'
         | Throw state' tr' \<Rightarrow> Thrown state' tr')
      else Returned state tr)"
  by pat_completeness auto
termination
proof (relation "measure (\<lambda>(e, config, state, tr). nat (maxIterations state - currentIteration state))")
  show "wf (measure (\<lambda>(e, config, state, tr). nat (maxIterations state - currentIteration state)))"
    by simp
next
  fix e config state tr state' tr'
  assume lt: "currentIteration state < maxIterations state"
    and c: "iteration_body e config state tr = Continue state' tr'"
  have "step_ok (currentIteration state + 1) (maxIterations state) tr (Continue state' tr')"
    using step_ok_body [of state tr e config] c by simp
  then have "currentIteration state' = currentIteration state + 1"
    and "maxIterations state' = maxIterations state"
    by (simp_all add: step_ok_def)
  then show "((e, config, state', tr'), (e, config, state, tr))
      \<in> measure (\<lambda>(e, config, state, tr). nat (maxIterations state - currentIteration state))"
    using lt by simp
qed

text \<open>
  After the loop, \<^verbatim>\<open>runIterations\<close> posts the closing notice when the iteration
  counter has reached the maximum.
\<close>

definition runIterations ::
  "env \<Rightarrow> MakerCheckerConfig \<Rightarrow> IterationState \<Rightarrow> event list \<Rightarrow> run_result" where
  "runIterations e config state tr =
     (case runLoop e config state tr of
        Thrown state tr \<Rightarrow> Thrown state tr
      | Returned state tr \<Rightarrow>
          if currentIteration state \<ge> maxIterations state then
            let tr = tr @ [(currentIteration state, Post_max_iterations)] in
            if throws e tr then Thrown state tr
            else let tr = tr @ [(currentIteration state, Add_label_attention)] in
                 if throws e tr then Thrown state tr else Returned state tr
          else Returned state tr)"


declare runLoop.simps [simp del]

text \<open>
  The events a run adds to the log, and what it means that a run stopped at the failed
  review of iteration \<open>n\<close>: the phase is failed, the counter is still \<open>n\<close>, the
  log ends with that review and the write of the failed state, and the Maker was not
  called in iteration \<open>n\<close>.
\<close>

definition new_events :: "event list \<Rightarrow> run_result \<Rightarrow> event list" where
  "new_events tr r = drop (length tr) (run_trace r)"

definition stops_at :: "int \<Rightarrow> event list \<Rightarrow> IterationState \<Rightarrow> bool" where
  "stops_at n new s \<longleftrightarrow>
     currentPhase s = Failed \<and> currentIteration s = n
     \<and> (\<exists>before. new = before @ [(n, Review_code), (n, Save_state)])
     \<and> (n, Respond_to_feedback) \<notin> set new"

text \<open>A Checker that always fails, with collaborators that never raise.\<close>

definition ex_error_review :: CodexReviewResult where
  "ex_error_review =
     \<lparr> status = Status_error, issuesFound = [], overallQuality = 0, securityIssues = [],
       performanceIssues = [], review_cost = 0 \<rparr>"

definition ex_env_checker_fails :: env where
  "ex_env_checker_fails =
     \<lparr> reviewCode = (\<lambda>n. ex_error_review),
       respondToFeedback = (\<lambda>n. \<lparr> claude_status = Success, issuesAddressed = 1,
                                    claude_cost = 0.5 \<rparr>),
       getCIStatus = (\<lambda>n. CI_success),
       throws = (\<lambda>tr. False),
       clock = (\<lambda>n. ''t'') \<rparr>"

lemma body_checker_error:
  assumes "status (reviewCode e (currentIteration s + 1)) = Status_error"
  defines "n \<equiv> currentIteration s + 1"
  defines "s1 \<equiv> startIteration (clock e n) s"
  defines "sF \<equiv> saveState (clock e n) (s1\<lparr>currentPhase := Failed\<rparr>)"
  shows "iteration_body e config s tr =
     (if throws e (tr @ [(n, Save_state)]) then Throw s1 (tr @ [(n, Save_state)])
      else if throws e (tr @ [(n, Save_state), (n, Post_status_comment)])
        then Throw s1 (tr @ [(n, Save_state), (n, Post_status_comment)])
      else if throws e (tr @ [(n, Save_state), (n, Post_status_comment), (n, Review_code),
                              (n, Save_state)])
        then Throw sF (tr @ [(n, Save_state), (n, Post_status_comment), (n, Review_code),
                              (n, Save_state)])
      else Break sF (tr @ [(n, Save_state), (n, Post_status_comment), (n, Review_code),
                              (n, Save_state)]))"
  using assms(1) unfolding n_def s1_def sF_def
  by (simp add: iteration_body_def attempt_def invoke_def fail_and_break_def Let_def
        startIteration_def saveState_def)

lemma body_error_summary:
  assumes "status (reviewCode e (currentIteration s + 1)) = Status_error"
    and "step_trace (iteration_body e config s tr) = tr @ evs"
  shows "(\<forall>s' tr'. iteration_body e config s tr \<noteq> Continue s' tr')
       \<and> ((currentIteration s + 1, Review_code) \<in> set evs \<longrightarrow>
            stops_at (currentIteration s + 1) evs (step_state (iteration_body e config s tr)))"
  using assms(2) unfolding body_checker_error [OF assms(1)]
  by (auto simp add: stops_at_def startIteration_def saveState_def split: if_splits)

lemma runLoop_trace:
  "\<exists>new. run_trace (runLoop e config s tr) = tr @ new
     \<and> (\<forall>ev\<in>set new. currentIteration s < fst ev)
     \<and> (\<forall>n. status (reviewCode e n) = Status_error \<longrightarrow> (n, Review_code) \<in> set new \<longrightarrow>
            stops_at n new (run_state (runLoop e config s tr)))"
proof (induction e config s tr rule: runLoop.induct)
  case (1 e config s tr)
  show ?case
  proof (cases "currentIteration s < maxIterations s")
    case False
    then have "runLoop e config s tr = Returned s tr" by (simp add: runLoop.simps)
    then show ?thesis by simp
  next
    case True
    let ?st = "iteration_body e config s tr"
    let ?n = "currentIteration s + 1"
    from step_ok_body [of s tr e config] obtain evs where
      evs: "step_trace ?st = tr @ evs" and tags: "\<forall>ev\<in>set evs. fst ev = ?n"
      and cur: "currentIteration (step_state ?st) = ?n"
      by (auto simp: step_ok_def)
    show ?thesis
    proof (cases ?st)
      case (Continue s' tr')
      then have tr': "tr' = tr @ evs" and cur': "currentIteration s' = ?n"
        using evs cur by simp_all
      have run: "runLoop e config s tr = runLoop e config s' tr'"
        using True Continue by (simp add: runLoop.simps)
      have ok: "status (reviewCode e ?n) \<noteq> Status_error"
        using body_error_summary [OF _ evs] Continue by blast
      from "1.IH" [OF True Continue] obtain new' where
        new': "run_trace (runLoop e config s' tr') = tr' @ new'"
        and tags': "\<forall>ev\<in>set new'. currentIteration s' < fst ev"
        and stop': "\<forall>n. status (reviewCode e n) = Status_error \<longrightarrow> (n, Review_code) \<in> set new' \<longrightarrow>
            stops_at n new' (run_state (runLoop e config s' tr'))"
        by blast
      have "run_trace (runLoop e config s tr) = tr @ (evs @ new')"
        using run new' tr' by simp
      moreover have "\<forall>ev\<in>set (evs @ new'). currentIteration s < fst ev"
        using tags tags' cur' by auto
      moreover have "\<forall>n. status (reviewCode e n) = Status_error \<longrightarrow>
            (n, Review_code) \<in> set (evs @ new') \<longrightarrow>
            stops_at n (evs @ new') (run_state (runLoop e config s tr))"
      proof (intro allI impI)
        fix n
        assume err: "status (reviewCode e n) = Status_error"
          and mem: "(n, Review_code) \<in> set (evs @ new')"
        have ne: "n \<noteq> ?n" using err ok by auto
        then have notin: "\<forall>c. (n, c) \<notin> set evs" using tags by auto
        then have "(n, Review_code) \<in> set new'" using mem by simp
        then have "stops_at n new' (run_state (runLoop e config s' tr'))"
          using stop' err by blast
        then show "stops_at n (evs @ new') (run_state (runLoop e config s tr))"
          using notin run by (auto simp add: stops_at_def)
      qed
      ultimately show ?thesis by blast
    next
      case (Break s' tr')
      then have run: "runLoop e config s tr = Returned s' tr'"
        using True by (simp add: runLoop.simps)
      have tr': "tr' = tr @ evs" using evs Break by simp
      have "\<forall>n. status (reviewCode e n) = Status_error \<longrightarrow> (n, Review_code) \<in> set evs \<longrightarrow>
            stops_at n evs (run_state (runLoop e config s tr))"
      proof (intro allI impI)
        fix n
        assume err: "status (reviewCode e n) = Status_error" and mem: "(n, Review_code) \<in> set evs"
        have n: "n = ?n" using tags mem by auto
        show "stops_at n evs (run_state (runLoop e config s tr))"
          using body_error_summary [OF _ evs] err mem Break run unfolding n by simp
      qed
      then show ?thesis using run tr' tags by auto
    next
      case (Throw s' tr')
      then have run: "runLoop e config s tr = Thrown s' tr'"
        using True by (simp add: runLoop.simps)
      have tr': "tr' = tr @ evs" using evs Throw by simp
      have "\<forall>n. status (reviewCode e n) = Status_error \<longrightarrow> (n, Review_code) \<in> set evs \<longrightarrow>
            stops_at n evs (run_state (runLoop e config s tr))"
      proof (intro allI impI)
        fix n
        assume err: "status (reviewCode e n) = Status_error" and mem: "(n, Review_code) \<in> set evs"
        have n: "n = ?n" using tags mem by auto
        show "stops_at n evs (run_state (runLoop e config s tr))"
          using body_error_summary [OF _ evs] err mem Throw run unfolding n by simp
      qed
      then show ?thesis using run tr' tags by auto
    qed
  qed
qed


text \<open>
  C9. If the Checker is called in iteration \<open>n\<close> of a run of the loop and its review
  has status error, then the run ends with the phase failed and the iteration counter
  still at \<open>n\<close>; the Maker is not called in iteration \<open>n\<close>; and after the review the
  run only writes the failed state and, when the maximum is reached, posts the closing
  notice: no further iteration starts.
\<close>

theorem checker_error_stops_loop:
  assumes "status (reviewCode e n) = Status_error"
    and "(n, Review_code) \<in> set (new_events tr (runIterations e config state tr))"
  shows "currentPhase (run_state (runIterations e config state tr)) = Failed
       \<and> currentIteration (run_state (runIterations e config state tr)) = n
       \<and> (n, Respond_to_feedback) \<notin> set (new_events tr (runIterations e config state tr))
       \<and> (\<exists>before after.
             new_events tr (runIterations e config state tr)
               = before @ [(n, Review_code), (n, Save_state)] @ after
             \<and> set after \<subseteq> {(n, Post_max_iterations), (n, Add_label_attention)})"
proof -
  let ?r = "runLoop e config state tr"
  from runLoop_trace [of e config state tr] obtain new where
    new: "run_trace ?r = tr @ new"
    and stop: "\<forall>n. status (reviewCode e n) = Status_error \<longrightarrow> (n, Review_code) \<in> set new \<longrightarrow>
            stops_at n new (run_state ?r)"
    by blast
  let ?k = "currentIteration (run_state ?r)"
  obtain after where
    st: "run_state (runIterations e config state tr) = run_state ?r"
    and tr: "run_trace (runIterations e config state tr) = tr @ new @ after"
    and after: "set after \<subseteq> {(?k, Post_max_iterations), (?k, Add_label_attention)}"
  proof (cases ?r)
    case (Thrown s' tr')
    then have "run_state (runIterations e config state tr) = run_state ?r"
      and "run_trace (runIterations e config state tr) = tr @ new @ []"
      using new by (simp_all add: runIterations_def)
    then show ?thesis using that [of "[]"] by simp
  next
    case (Returned s' tr')
    then have tr': "tr' = tr @ new" and s': "s' = run_state ?r" using new by simp_all
    consider (none) "\<not> currentIteration s' \<ge> maxIterations s'"
      | (first) "currentIteration s' \<ge> maxIterations s'"
                "throws e (tr' @ [(currentIteration s', Post_max_iterations)])"
      | (both) "currentIteration s' \<ge> maxIterations s'"
                "\<not> throws e (tr' @ [(currentIteration s', Post_max_iterations)])"
      by blast
    then show ?thesis
    proof cases
      case none
      then have "run_state (runIterations e config state tr) = run_state ?r"
        and "run_trace (runIterations e config state tr) = tr @ new @ []"
        using Returned tr' by (simp_all add: runIterations_def)
      then show ?thesis using that [of "[]"] by simp
    next
      case first
      then have "run_state (runIterations e config state tr) = run_state ?r"
        and "run_trace (runIterations e config state tr)
               = tr @ new @ [(currentIteration s', Post_max_iterations)]"
        using Returned tr' by (simp_all add: runIterations_def Let_def)
      then show ?thesis using that [of "[(currentIteration s', Post_max_iterations)]"] s' by simp
    next
      case both
      then have "run_state (runIterations e config state tr) = run_state ?r"
        and "run_trace (runIterations e config state tr)
               = tr @ new @ [(currentIteration s', Post_max_iterations),
                             (currentIteration s', Add_label_attention)]"
        using Returned tr' by (simp_all add: runIterations_def Let_def)
      then show ?thesis
        using that [of "[(currentIteration s', Post_max_iterations),
                         (currentIteration s', Add_label_attention)]"] s' by simp
    qed
  qed
  have ne: "new_events tr (runIterations e config state tr) = new @ after"
    using tr by (simp add: new_events_def)
  have "(n, Review_code) \<in> set new"
    using assms(2) after unfolding ne by auto
  then have sa: "stops_at n new (run_state ?r)" using stop assms(1) by blast
  then obtain before where before: "new = before @ [(n, Review_code), (n, Save_state)]"
    and k: "?k = n" and ph: "currentPhase (run_state ?r) = Failed"
    and nr: "(n, Respond_to_feedback) \<notin> set new"
    by (auto simp: stops_at_def)
  have "(n, Respond_to_feedback) \<notin> set (new @ after)"
    using nr after by auto
  moreover have "new @ after = before @ [(n, Review_code), (n, Save_state)] @ after"
    using before by simp
  ultimately show ?thesis
    using st ph k after unfolding ne by auto
qed

theorem checker_error_stops_loop_witness:
  "status (reviewCode ex_env_checker_fails 1) = Status_error
   \<and> new_events [] (runIterations ex_env_checker_fails getDefaultConfig
        (initializeState ''t0'' 7 ''repo'' getDefaultConfig) [])
      = [(1, Save_state), (1, Post_status_comment), (1, Review_code), (1, Save_state)]
   \<and> currentPhase (run_state (runIterations ex_env_checker_fails getDefaultConfig
        (initializeState ''t0'' 7 ''repo'' getDefaultConfig) [])) = Failed
   \<and> (1, Respond_to_feedback) \<notin> set (new_events [] (runIterations ex_env_checker_fails
        getDefaultConfig (initializeState ''t0'' 7 ''repo'' getDefaultConfig) []))"
proof -
  let ?s = "initializeState ''t0'' 7 ''repo'' getDefaultConfig"
  let ?r = "runIterations ex_env_checker_fails getDefaultConfig ?s []"
  have err: "status (reviewCode ex_env_checker_fails 1) = Status_error"
    by (simp add: ex_env_checker_fails_def ex_error_review_def)
  have body: "iteration_body ex_env_checker_fails getDefaultConfig ?s [] =
      Break (saveState ''t'' ((startIteration ''t'' ?s)\<lparr>currentPhase := Failed\<rparr>))
        [(1, Save_state), (1, Post_status_comment), (1, Review_code), (1, Save_state)]"
    by (simp add: iteration_body_def attempt_def invoke_def fail_and_break_def Let_def
          startIteration_def saveState_def initializeState_def ex_env_checker_fails_def
          ex_error_review_def)
  have loop: "runLoop ex_env_checker_fails getDefaultConfig ?s [] =
      Returned (saveState ''t'' ((startIteration ''t'' ?s)\<lparr>currentPhase := Failed\<rparr>))
        [(1, Save_state), (1, Post_status_comment), (1, Review_code), (1, Save_state)]"
    by (subst runLoop.simps)
       (simp add: body, simp add: initializeState_def saveState_def getDefaultConfig_def)
  have new: "new_events [] ?r
      = [(1, Save_state), (1, Post_status_comment), (1, Review_code), (1, Save_state)]"
    unfolding new_events_def runIterations_def loop
    by (simp add: startIteration_def saveState_def initializeState_def getDefaultConfig_def)
  have mem: "(1, Review_code) \<in> set (new_events [] ?r)" by (simp add: new)
  show ?thesis
    using checker_error_stops_loop [OF err mem] err new by simp
qed

end
